theory Spec2Isabelle
  imports Complex_Main
begin

section \<open>The GMDC importer (blender\_import.py)\<close>

text \<open>
  The operator \<^verbatim>\<open>ImportGMDC\<close> reads a decoded GMDC file and hands it to the host
  editor: \<^verbatim>\<open>import_skeleton\<close> builds an armature, \<^verbatim>\<open>do_import\<close> builds one mesh
  object per geometry group and assigns the bone weights, \<^verbatim>\<open>execute\<close> drives both.

  Coordinates and weights are Python floats; they are modelled as \<^typ>\<open>real\<close>, so
  every arithmetic fact below is a fact of exact arithmetic. Indices decoded from the
  file are modelled as \<^typ>\<open>nat\<close>. A Python exception is a value \<open>Inl e\<close>; the host
  state reached at a raise is not kept.

  The host's vectors hold 32-bit floats: their \<^verbatim>\<open>==\<close> holds within one unit in the last
  place and their \<^verbatim>\<open>+=\<close> rounds, so that a small summand can be absorbed. Where a
  statement about the zero-length guard of lines 104-106 would depend on this, the
  vector operations are parameters of the model (\<open>create_bones_with\<close> below).
\<close>

subsection \<open>Python values\<close>

type_synonym vec2 = "real \<times> real"
type_synonym vec3 = "real \<times> real \<times> real"
type_synonym quat = "real \<times> real \<times> real \<times> real"

datatype py_error = IndexError | KeyError

text \<open>\<^verbatim>\<open>xs[i]\<close> on a list, for an index that is not negative.\<close>

definition py_index :: "'a list \<Rightarrow> nat \<Rightarrow> py_error + 'a" where
  "py_index xs i = (if i < length xs then Inr (xs ! i) else Inl IndexError)"

subsection \<open>The data handed over by the decoder\<close>

text \<open>
  \<^verbatim>\<open>BlenderModel\<close> (one geometry group), as \<^verbatim>\<open>do_import\<close> reads it: the fields
  \<^verbatim>\<open>name, vertices, faces, normals, uvs, bone_assign, bone_weight\<close>.
\<close>

record b_model =
  name :: string
  vertices :: "vec3 list"
  faces :: "nat list list"
  normals :: "vec3 list"
  uvs :: "vec2 list"
  bone_assign :: "nat list list"
  bone_weight :: "real list list"

text \<open>
  Modelled from the spec: the type of a \<^verbatim>\<open>BoneData\<close> entry (module \<^verbatim>\<open>bone_data\<close>,
  not among the sources). The importer reads \<^verbatim>\<open>name\<close>, \<^verbatim>\<open>position\<close> (three
  components), \<^verbatim>\<open>rotation\<close> (four components, w first) and \<^verbatim>\<open>parent\<close>
  (\<^verbatim>\<open>None\<close> or an index into the bone table).
\<close>

record bonedata =
  bone_name :: string
  position :: vec3
  rotation :: quat
  parent :: "nat option"

text \<open>
  What the decoder modules return for one file. They are not among the sources, so
  their results are parameters: \<^verbatim>\<open>load_header()\<close>, \<^verbatim>\<open>header.file_type\<close>,
  \<^verbatim>\<open>BlenderModel.groups_from_gmdc\<close> (\<open>None\<close> stands for \<^verbatim>\<open>False\<close>) and
  \<^verbatim>\<open>BoneData.build_bones\<close>.
\<close>

record gmdc =
  load_header :: bool
  file_type :: nat
  groups_from_gmdc :: "b_model list option"
  build_bones :: "bonedata list"

subsection \<open>The host editor's objects\<close>

text \<open>
  The host interface (\<^verbatim>\<open>bpy\<close>, \<^verbatim>\<open>mathutils\<close>) is outside the repository. It is
  modelled by its contract, only as far as the importer uses it.

  A vertex group keeps the calls of \<^verbatim>\<open>vertgroup.add(index, weight, type)\<close> made on
  it, in order; \<open>vg_weight\<close> reads the weight of a vertex off that history.
\<close>

datatype assign_mode = REPLACE | ADD | SUBTRACT

record vertex_group =
  vg_name :: string
  vg_calls :: "(nat list \<times> real \<times> assign_mode) list"

record mesh_vertex =
  co :: vec3
  normal :: vec3

record mesh_polygon =
  poly_vertices :: "nat list"
  loop_start :: nat
  loop_total :: nat

record mesh_object =
  ob_name :: string
  linked :: bool
  mesh_vertices :: "mesh_vertex list"
  mesh_polygons :: "mesh_polygon list"
  uv_layers :: "(string \<times> vec2 list) list"
  vertex_groups :: "vertex_group list"

record custom_properties =
  tX :: "real option"
  tY :: "real option"
  tZ :: "real option"
  rW :: "real option"
  rX :: "real option"
  rY :: "real option"
  rZ :: "real option"

record edit_bone =
  eb_name :: string
  head :: vec3
  tail :: vec3
  bone_parent :: "nat option"
  props :: custom_properties

datatype ob_mode = EDIT | OBJECT

record armature_object =
  arm_name :: string
  show_x_ray :: bool
  draw_type :: string
  location :: vec3
  scale :: vec3
  mode :: ob_mode
  edit_bones :: "edit_bone list"

text \<open>
  The world the operator runs in: the calls made to the decoder modules of the
  repository (\<^verbatim>\<open>rcol.gmdc\<close>, \<^verbatim>\<open>blender_model\<close>, \<^verbatim>\<open>bone_data\<close>), the lines printed, and
  the armatures and mesh objects created in the host.
\<close>

datatype decoder_call = From_file_data | Load_header | Load_data | Groups_from_gmdc | Build_bones

record world =
  decoder_calls :: "decoder_call list"
  console :: "string list"
  armatures :: "armature_object list"
  objects :: "mesh_object list"

definition empty_world :: world where
  "empty_world = \<lparr>decoder_calls = [], console = [], armatures = [], objects = []\<rparr>"

definition decoder_call :: "decoder_call \<Rightarrow> world \<Rightarrow> world" where
  "decoder_call c w = w\<lparr>decoder_calls := decoder_calls w @ [c]\<rparr>"

definition py_print :: "string \<Rightarrow> world \<Rightarrow> world" where
  "py_print s w = w\<lparr>console := console w @ [s]\<rparr>"

definition add_object :: "mesh_object \<Rightarrow> world \<Rightarrow> world" where
  "add_object ob w = w\<lparr>objects := objects w @ [ob]\<rparr>"

subsection \<open>Host operations on a mesh object\<close>

text \<open>
  \<^verbatim>\<open>bpy.data.meshes.new\<close>, \<^verbatim>\<open>bpy.data.objects.new\<close> and \<^verbatim>\<open>scene.objects.link\<close>: an
  empty mesh object of the given name, linked into the scene.
\<close>

definition new_object :: "string \<Rightarrow> mesh_object" where
  "new_object n = \<lparr>ob_name = n, linked = True, mesh_vertices = [], mesh_polygons = [],
     uv_layers = [], vertex_groups = []\<rparr>"

text \<open>
  \<^verbatim>\<open>mesh.from_pydata(vertices, [], faces)\<close>: one mesh vertex per point, one polygon
  per face, the corners (loops) of the polygons numbered consecutively.
\<close>

fun make_polygons :: "nat \<Rightarrow> nat list list \<Rightarrow> mesh_polygon list" where
  "make_polygons s [] = []"
| "make_polygons s (f # fs) =
     \<lparr>poly_vertices = f, loop_start = s, loop_total = length f\<rparr> # make_polygons (s + length f) fs"

definition from_pydata :: "vec3 list \<Rightarrow> nat list list \<Rightarrow> mesh_object \<Rightarrow> mesh_object" where
  "from_pydata vs fs ob =
     ob\<lparr>mesh_vertices := map (\<lambda>v. \<lparr>co = v, normal = (0, 0, 0)\<rparr>) vs,
        mesh_polygons := make_polygons 0 fs\<rparr>"

definition loop_indices :: "mesh_polygon \<Rightarrow> nat list" where
  "loop_indices p = [loop_start p ..< loop_start p + loop_total p]"

text \<open>\<^verbatim>\<open>mesh.uv_textures.new(name)\<close>: a new active UV layer, one entry per loop.\<close>

definition uv_textures_new :: "string \<Rightarrow> mesh_object \<Rightarrow> mesh_object" where
  "uv_textures_new n ob =
     ob\<lparr>uv_layers := uv_layers ob @
        [(n, replicate (sum_list (map loop_total (mesh_polygons ob))) (0, 0))]\<rparr>"

text \<open>\<^verbatim>\<open>object.vertex_groups.new(name)\<close> and \<^verbatim>\<open>object.vertex_groups[name]\<close>.\<close>

definition vertex_groups_new :: "string \<Rightarrow> vertex_group list \<Rightarrow> vertex_group list" where
  "vertex_groups_new n gs = gs @ [\<lparr>vg_name = n, vg_calls = []\<rparr>]"

fun find_group :: "vertex_group list \<Rightarrow> string \<Rightarrow> nat \<Rightarrow> py_error + nat" where
  "find_group [] n k = Inl KeyError"
| "find_group (g # gs) n k = (if vg_name g = n then Inr k else find_group gs n (Suc k))"

text \<open>\<^verbatim>\<open>vertgroup.add(index, weight, type)\<close> on the group at position \<open>k\<close>.\<close>

definition vg_add :: "nat \<Rightarrow> nat list \<Rightarrow> real \<Rightarrow> assign_mode \<Rightarrow> vertex_group list \<Rightarrow> vertex_group list" where
  "vg_add k idx weight ty gs =
     gs[k := (gs ! k)\<lparr>vg_calls := vg_calls (gs ! k) @ [(idx, weight, ty)]\<rparr>]"

text \<open>
  The weight a vertex has in a group after the recorded calls: \<^verbatim>\<open>REPLACE\<close> sets it,
  \<^verbatim>\<open>ADD\<close> adds to it (a vertex not yet in the group enters with the given weight),
  \<^verbatim>\<open>SUBTRACT\<close> takes from it. \<open>None\<close>: the vertex is not in the group.
\<close>

fun apply_call :: "nat \<Rightarrow> real option \<Rightarrow> (nat list \<times> real \<times> assign_mode) \<Rightarrow> real option" where
  "apply_call v cur (idx, weight, ty) =
     (if v \<notin> set idx then cur
      else case ty of
             REPLACE \<Rightarrow> Some weight
           | ADD \<Rightarrow> (case cur of None \<Rightarrow> Some weight | Some x \<Rightarrow> Some (x + weight))
           | SUBTRACT \<Rightarrow> (case cur of None \<Rightarrow> None | Some x \<Rightarrow> Some (x - weight)))"

definition vg_weight :: "vertex_group \<Rightarrow> nat \<Rightarrow> real option" where
  "vg_weight g v = foldl (apply_call v) None (vg_calls g)"

subsection \<open>do\_import\<close>

text \<open>
  Lines 141-142: \<^verbatim>\<open>for i, vert in enumerate(mesh.vertices): vert.normal = b_model.normals[i]\<close>.
\<close>

fun load_normals :: "vec3 list \<Rightarrow> nat \<Rightarrow> mesh_vertex list \<Rightarrow> py_error + mesh_vertex list" where
  "load_normals ns i [] = Inr []"
| "load_normals ns i (vert # verts) =
     (case py_index ns i of
        Inl e \<Rightarrow> Inl e
      | Inr n \<Rightarrow>
          (case load_normals ns (Suc i) verts of
             Inl e \<Rightarrow> Inl e
           | Inr verts' \<Rightarrow> Inr (vert\<lparr>normal := n\<rparr> # verts')))"

text \<open>
  Lines 147-152: for polygon \<open>i\<close> and its \<open>j\<close>-th loop, the UV entry of the loop is set
  to \<^verbatim>\<open>b_model.uvs[b_model.faces[i][j]]\<close>.
\<close>

fun load_uvs_polygon ::
  "b_model \<Rightarrow> nat \<Rightarrow> nat \<Rightarrow> nat list \<Rightarrow> vec2 list \<Rightarrow> py_error + vec2 list" where
  "load_uvs_polygon m i j [] uvdata = Inr uvdata"
| "load_uvs_polygon m i j (loopindex # rest) uvdata =
     (case py_index uvdata loopindex of
        Inl e \<Rightarrow> Inl e
      | Inr meshuvloop \<Rightarrow>
          (case py_index (faces m) i of
             Inl e \<Rightarrow> Inl e
           | Inr face \<Rightarrow>
               (case py_index face j of
                  Inl e \<Rightarrow> Inl e
                | Inr vertex_index \<Rightarrow>
                    (case py_index (uvs m) vertex_index of
                       Inl e \<Rightarrow> Inl e
                     | Inr uv \<Rightarrow>
                         load_uvs_polygon m i (Suc j) rest (uvdata[loopindex := uv])))))"

fun load_uvs :: "b_model \<Rightarrow> nat \<Rightarrow> mesh_polygon list \<Rightarrow> vec2 list \<Rightarrow> py_error + vec2 list" where
  "load_uvs m i [] uvdata = Inr uvdata"
| "load_uvs m i (polygon # polygons) uvdata =
     (case load_uvs_polygon m i 0 (loop_indices polygon) uvdata of
        Inl e \<Rightarrow> Inl e
      | Inr uvdata' \<Rightarrow> load_uvs m (Suc i) polygons uvdata')"

text \<open>
  Lines 155-156: one vertex group per entry of \<^verbatim>\<open>BoneData.bone_parent_table\<close>, named
  by the entry's first component. The table itself belongs to a module that is not
  among the sources; it is a parameter, a list of entries whose first component is the
  name.
\<close>

fun create_vertex_groups :: "(string \<times> 'p) list \<Rightarrow> vertex_group list \<Rightarrow> vertex_group list" where
  "create_vertex_groups [] gs = gs"
| "create_vertex_groups (val # vals) gs = create_vertex_groups vals (vertex_groups_new (fst val) gs)"

text \<open>
  Lines 175-185, the loop over \<open>j\<close> for vertex \<open>i\<close>: the rest of \<^verbatim>\<open>bone_assign[i]\<close>
  from position \<open>j\<close> on, the running \<^verbatim>\<open>remainder\<close>, and the vertex groups.
\<close>

fun weights_vertex ::
  "(string \<times> 'p) list \<Rightarrow> b_model \<Rightarrow> nat \<Rightarrow> nat \<Rightarrow> nat list \<Rightarrow> real \<Rightarrow> vertex_group list
     \<Rightarrow> py_error + vertex_group list" where
  "weights_vertex bone_parent_table m i j [] remainder gs = Inr gs"
| "weights_vertex bone_parent_table m i j (b # bs) remainder gs =
     (case py_index bone_parent_table b of
        Inl e \<Rightarrow> Inl e
      | Inr val \<Rightarrow>
          (case find_group gs (fst val) 0 of
             Inl e \<Rightarrow> Inl e
           | Inr vertgroup \<Rightarrow>
               if j \<noteq> 3 then
                 (case py_index (bone_weight m) i of
                    Inl e \<Rightarrow> Inl e
                  | Inr row \<Rightarrow>
                      (case py_index row j of
                         Inl e \<Rightarrow> Inl e
                       | Inr weight \<Rightarrow>
                           weights_vertex bone_parent_table m i (Suc j) bs (remainder - weight)
                             (vg_add vertgroup [i] weight ADD gs)))
               else
                 weights_vertex bone_parent_table m i (Suc j) bs remainder
                   (vg_add vertgroup [i] remainder ADD gs)))"

text \<open>
  Lines 172-173, the loop over \<open>i\<close>: the rows of \<^verbatim>\<open>bone_assign\<close> from position \<open>i\<close>
  on; \<^verbatim>\<open>remainder\<close> starts at 1.0 for every vertex.
\<close>

fun weights_loop ::
  "(string \<times> 'p) list \<Rightarrow> b_model \<Rightarrow> nat \<Rightarrow> nat list list \<Rightarrow> vertex_group list
     \<Rightarrow> py_error + vertex_group list" where
  "weights_loop bone_parent_table m i [] gs = Inr gs"
| "weights_loop bone_parent_table m i (assign # rest) gs =
     (case weights_vertex bone_parent_table m i 0 assign 1 gs of
        Inl e \<Rightarrow> Inl e
      | Inr gs' \<Rightarrow> weights_loop bone_parent_table m (Suc i) rest gs')"

definition mismatch_message :: "string \<Rightarrow> string" where
  "mismatch_message n =
     ''ERROR: Group '' @ n @ [CHR 0x27] @ ''s vertex index counts don'' @ [CHR 0x27] @ ''t match.''"

definition imported_message :: "string \<Rightarrow> string" where
  "imported_message n = ''Group '' @ n @ '' imported.'' @ [CHR 0x0A]"

text \<open>
  \<^verbatim>\<open>do_import(self, b_model, armature)\<close>. The mesh object is created and linked
  first (lines 133-135) and then filled in place; the model builds the record step by
  step and stores it in the world where the function returns. The progress lines that
  \<^verbatim>\<open>do_import\<close> prints itself and the comparison loop of lines 166-169, which only
  prints, are left out.
\<close>

definition do_import ::
  "(string \<times> 'p) list \<Rightarrow> b_model \<Rightarrow> armature_object \<Rightarrow> world \<Rightarrow> py_error + (string \<times> world)" where
  "do_import bone_parent_table m armature w =
     (let ob = from_pydata (vertices m) (faces m) (new_object (name m)) in
      case load_normals (normals m) 0 (mesh_vertices ob) of
        Inl e \<Rightarrow> Inl e
      | Inr verts \<Rightarrow>
          (let ob = uv_textures_new ''UVMap'' (ob\<lparr>mesh_vertices := verts\<rparr>) in
           case load_uvs m 0 (mesh_polygons ob) (snd (last (uv_layers ob))) of
             Inl e \<Rightarrow> Inl e
           | Inr uvdata \<Rightarrow>
               (let ob = ob\<lparr>uv_layers := butlast (uv_layers ob) @ [(fst (last (uv_layers ob)), uvdata)]\<rparr>;
                    ob = ob\<lparr>vertex_groups := create_vertex_groups bone_parent_table (vertex_groups ob)\<rparr>
                in
                if length (vertices m) \<noteq> length (bone_assign m)
                   \<or> length (vertices m) \<noteq> length (bone_weight m)
                then Inr (mismatch_message (name m), add_object ob w)
                else
                  (case weights_loop bone_parent_table m 0 (bone_assign m) (vertex_groups ob) of
                     Inl e \<Rightarrow> Inl e
                   | Inr gs \<Rightarrow>
                       Inr (imported_message (name m), add_object (ob\<lparr>vertex_groups := gs\<rparr>) w)))))"

subsection \<open>import\_skeleton\<close>

definition vadd :: "vec3 \<Rightarrow> vec3 \<Rightarrow> vec3" where
  "vadd a b = (case a of (ax, ay, az) \<Rightarrow> case b of (bx, by, bz) \<Rightarrow> (ax + bx, ay + by, az + bz))"

definition vscale :: "vec3 \<Rightarrow> vec3 \<Rightarrow> vec3" where
  "vscale s a = (case s of (sx, sy, sz) \<Rightarrow> case a of (ax, ay, az) \<Rightarrow> (sx * ax, sy * ay, sz * az))"

text \<open>
  \<^verbatim>\<open>Quaternion * Vector\<close> of the host's \<^verbatim>\<open>mathutils\<close>: the vector rotated by the
  quaternion \<open>(w, x, y, z)\<close>, computed as the product \<open>q v q\<^sup>*\<close>.
\<close>

definition quat_rotate :: "quat \<Rightarrow> vec3 \<Rightarrow> vec3" where
  "quat_rotate q v =
     (case q of (qw, qx, qy, qz) \<Rightarrow> case v of (v0, v1, v2) \<Rightarrow>
        let t0 = - qx * v0 - qy * v1 - qz * v2;
            t1 = qw * v0 + qy * v2 - qz * v1;
            t2 = qw * v1 + qz * v0 - qx * v2;
            t3 = qw * v2 + qx * v1 - qy * v0
        in (t0 * - qx + t1 * qw - t2 * qz + t3 * qy,
            t0 * - qy + t2 * qw - t3 * qx + t1 * qz,
            t0 * - qz + t3 * qw - t1 * qy + t2 * qx))"

text \<open>\<^verbatim>\<open>amt.edit_bones.new(name)\<close>: a bone with head and tail at the origin, no parent.\<close>

definition edit_bones_new :: "string \<Rightarrow> edit_bone" where
  "edit_bones_new n = \<lparr>eb_name = n, head = (0, 0, 0), tail = (0, 0, 0), bone_parent = None,
     props = \<lparr>tX = None, tY = None, tZ = None, rW = None, rX = None, rY = None, rZ = None\<rparr>\<rparr>"

text \<open>
  Lines 96-117, the body of the loop for one \<^verbatim>\<open>bonedata\<close>. The new bone is already
  the last element of \<^verbatim>\<open>amt.edit_bones\<close> when the parent is looked up.
\<close>

definition epsilon :: real where
  "epsilon = 0.00001"

definition zero_length_offset :: vec3 where
  "zero_length_offset = (0, epsilon, 0)"

text \<open>The value \<^verbatim>\<open>rot * trans\<close> of line 99, for one \<^verbatim>\<open>bonedata\<close>.\<close>

definition rot_trans :: "bonedata \<Rightarrow> vec3" where
  "rot_trans bd = quat_rotate (rotation bd) (position bd)"

definition create_bone :: "edit_bone list \<Rightarrow> bonedata \<Rightarrow> py_error + edit_bone" where
  "create_bone bones bd =
     (let bone = edit_bones_new (bone_name bd);
          trans = position bd;
          rot = rotation bd;
          bone = bone\<lparr>tail := quat_rotate rot trans\<rparr>
      in
      case (case parent bd of
              None \<Rightarrow> Inr bone
            | Some p \<Rightarrow>
                (case py_index (bones @ [bone]) p of
                   Inl e \<Rightarrow> Inl e
                 | Inr par \<Rightarrow> Inr (bone\<lparr>bone_parent := Some p, head := tail par\<rparr>))) of
        Inl e \<Rightarrow> Inl e
      | Inr bone \<Rightarrow>
          (let bone = (if tail bone = head bone
                       then bone\<lparr>tail := vadd (tail bone) zero_length_offset\<rparr> else bone)
           in Inr (bone\<lparr>props :=
                \<lparr>tX = Some (fst trans), tY = Some (fst (snd trans)), tZ = Some (snd (snd trans)),
                 rW = Some (fst rot), rX = Some (fst (snd rot)), rY = Some (fst (snd (snd rot))),
                 rZ = Some (snd (snd (snd rot)))\<rparr>\<rparr>)))"

fun create_bones :: "bonedata list \<Rightarrow> edit_bone list \<Rightarrow> py_error + edit_bone list" where
  "create_bones [] bones = Inr bones"
| "create_bones (bd # skeldata) bones =
     (case create_bone bones bd of
        Inl e \<Rightarrow> Inl e
      | Inr bone \<Rightarrow> create_bones skeldata (bones @ [bone]))"

text \<open>
  The same loop with the host's vector operations as parameters: \<open>vec_eq\<close> for
  \<^verbatim>\<open>Vector == Vector\<close> of line 104, \<open>vec_add\<close> for \<^verbatim>\<open>Vector += Vector\<close> of line 105 and
  \<open>quat_mul\<close> for \<^verbatim>\<open>Quaternion * Vector\<close> of line 99. The host computes them on 32-bit
  floats; \<open>create_bone\<close> and \<open>create_bones\<close> are the instance with equality, \<open>vadd\<close> and
  \<open>quat_rotate\<close> on reals.
\<close>

definition create_bone_with ::
  "(vec3 \<Rightarrow> vec3 \<Rightarrow> bool) \<Rightarrow> (vec3 \<Rightarrow> vec3 \<Rightarrow> vec3) \<Rightarrow> (quat \<Rightarrow> vec3 \<Rightarrow> vec3)
     \<Rightarrow> edit_bone list \<Rightarrow> bonedata \<Rightarrow> py_error + edit_bone" where
  "create_bone_with vec_eq vec_add quat_mul bones bd =
     (let bone = edit_bones_new (bone_name bd);
          trans = position bd;
          rot = rotation bd;
          bone = bone\<lparr>tail := quat_mul rot trans\<rparr>
      in
      case (case parent bd of
              None \<Rightarrow> Inr bone
            | Some p \<Rightarrow>
                (case py_index (bones @ [bone]) p of
                   Inl e \<Rightarrow> Inl e
                 | Inr par \<Rightarrow> Inr (bone\<lparr>bone_parent := Some p, head := tail par\<rparr>))) of
        Inl e \<Rightarrow> Inl e
      | Inr bone \<Rightarrow>
          (let bone = (if vec_eq (tail bone) (head bone)
                       then bone\<lparr>tail := vec_add (tail bone) zero_length_offset\<rparr> else bone)
           in Inr (bone\<lparr>props :=
                \<lparr>tX = Some (fst trans), tY = Some (fst (snd trans)), tZ = Some (snd (snd trans)),
                 rW = Some (fst rot), rX = Some (fst (snd rot)), rY = Some (fst (snd (snd rot))),
                 rZ = Some (snd (snd (snd rot)))\<rparr>\<rparr>)))"

fun create_bones_with ::
  "(vec3 \<Rightarrow> vec3 \<Rightarrow> bool) \<Rightarrow> (vec3 \<Rightarrow> vec3 \<Rightarrow> vec3) \<Rightarrow> (quat \<Rightarrow> vec3 \<Rightarrow> vec3)
     \<Rightarrow> bonedata list \<Rightarrow> edit_bone list \<Rightarrow> py_error + edit_bone list" where
  "create_bones_with vec_eq vec_add quat_mul [] bones = Inr bones"
| "create_bones_with vec_eq vec_add quat_mul (bd # skeldata) bones =
     (case create_bone_with vec_eq vec_add quat_mul bones bd of
        Inl e \<Rightarrow> Inl e
      | Inr bone \<Rightarrow> create_bones_with vec_eq vec_add quat_mul skeldata (bones @ [bone]))"

text \<open>
  \<^verbatim>\<open>bpy.ops.object.add(type='ARMATURE', enter_editmode=True, location=(0,0,0))\<close>: an
  armature object without bones, in edit mode, selected and active.
\<close>

definition object_add_armature :: "vec3 \<Rightarrow> armature_object" where
  "object_add_armature loc = \<lparr>arm_name = ''Armature'', show_x_ray = False,
     draw_type = ''OCTAHEDRAL'', location = loc, scale = (1, 1, 1), mode = EDIT, edit_bones = []\<rparr>"

text \<open>The reflection that the resize value \<open>(1, 1, -1)\<close> of line 122 stands for.\<close>

definition mirror_z :: "vec3 \<Rightarrow> vec3" where
  "mirror_z v = vscale (1, 1, -1) v"

text \<open>
  \<^verbatim>\<open>bpy.ops.transform.resize(value)\<close> scales the selected object, which is the
  armature just added; \<^verbatim>\<open>bpy.ops.object.transform_apply(location=False,
  rotation=False, scale=True)\<close> moves the object's scale into its data (the bone
  positions) and resets the scale.
\<close>

definition transform_resize :: "vec3 \<Rightarrow> armature_object \<Rightarrow> armature_object" where
  "transform_resize v ob = ob\<lparr>scale := vscale v (scale ob)\<rparr>"

definition transform_apply_scale :: "armature_object \<Rightarrow> armature_object" where
  "transform_apply_scale ob =
     ob\<lparr>edit_bones := map (\<lambda>b. b\<lparr>head := vscale (scale ob) (head b), tail := vscale (scale ob) (tail b)\<rparr>)
                          (edit_bones ob),
        scale := (1, 1, 1)\<rparr>"

text \<open>
  \<^verbatim>\<open>bpy.ops.object.mode_set(mode='OBJECT')\<close> of line 121 is modelled as the change of
  the mode alone. The host, when it leaves edit mode, also discards every bone whose
  length is at most \<open>10\<^sup>-\<^sup>6\<close>; \<open>import_skeleton\<close> below keeps such bones, so the
  armature it returns is the host's only where every bone satisfies
  \<open>bone_kept_by_host\<close>.
\<close>

definition dist_sq :: "vec3 \<Rightarrow> vec3 \<Rightarrow> real" where
  "dist_sq a b = (case a of (ax, ay, az) \<Rightarrow> case b of (bx, by, bz) \<Rightarrow>
     (ax - bx)\<^sup>2 + (ay - by)\<^sup>2 + (az - bz)\<^sup>2)"

definition bone_kept_by_host :: "edit_bone \<Rightarrow> bool" where
  "bone_kept_by_host b \<longleftrightarrow> (1 / 1000000)\<^sup>2 < dist_sq (tail b) (head b)"

definition import_skeleton :: "gmdc \<Rightarrow> world \<Rightarrow> py_error + (armature_object \<times> world)" where
  "import_skeleton data w =
     (let skeldata = build_bones data;
          w = decoder_call Build_bones w;
          ob = object_add_armature (0, 0, 0);
          ob = ob\<lparr>show_x_ray := True\<rparr>;
          ob = ob\<lparr>arm_name := ''Armature''\<rparr>;
          ob = ob\<lparr>draw_type := ''STICK''\<rparr>
      in
      case create_bones skeldata (edit_bones ob) of
        Inl e \<Rightarrow> Inl e
      | Inr bones \<Rightarrow>
          (let ob = ob\<lparr>edit_bones := bones\<rparr>;
               ob = ob\<lparr>mode := OBJECT\<rparr>;
               ob = transform_resize (1, 1, -1) ob;
               ob = transform_apply_scale ob
           in Inr (ob, w\<lparr>armatures := armatures w @ [ob]\<rparr>)))"

subsection \<open>execute and parse\_data\<close>

text \<open>Python's \<^verbatim>\<open>hex\<close> of a number that is not negative.\<close>

definition hex_digit :: "nat \<Rightarrow> char" where
  "hex_digit d = ''0123456789abcdef'' ! d"

fun hex_digits :: "nat \<Rightarrow> string" where
  "hex_digits n = (if n < 16 then [hex_digit n] else hex_digits (n div 16) @ [hex_digit (n mod 16)])"

declare hex_digits.simps [simp del]

definition hex :: "nat \<Rightarrow> string" where
  "hex n = ''0x'' @ hex_digits n"

definition unsupported_message :: "nat \<Rightarrow> string" where
  "unsupported_message ft = ''Unsupported GMDC version'' @ '' '' @ hex ft"

text \<open>Lines 59-60: \<^verbatim>\<open>for model in b_models: print(self.do_import(model, armature))\<close>.\<close>

fun import_models ::
  "(string \<times> 'p) list \<Rightarrow> b_model list \<Rightarrow> armature_object \<Rightarrow> world \<Rightarrow> py_error + world" where
  "import_models bone_parent_table [] armature w = Inr w"
| "import_models bone_parent_table (model # b_models) armature w =
     (case do_import bone_parent_table model armature w of
        Inl e \<Rightarrow> Inl e
      | Inr (s, w') \<Rightarrow> import_models bone_parent_table b_models armature (py_print s w'))"

datatype exec_result = RetFalse | FINISHED

definition execute :: "(string \<times> 'p) list \<Rightarrow> gmdc \<Rightarrow> world \<Rightarrow> py_error + (exec_result \<times> world)" where
  "execute bone_parent_table gmdc_data w =
     (let w = decoder_call From_file_data w;
          w = decoder_call Load_header w
      in
      if load_header gmdc_data = False
      then Inr (RetFalse, py_print (unsupported_message (file_type gmdc_data)) w)
      else
        (let w = decoder_call Load_data w;
             w = decoder_call Groups_from_gmdc w;
             b_models = groups_from_gmdc gmdc_data
         in
         case import_skeleton gmdc_data w of
           Inl e \<Rightarrow> Inl e
         | Inr (armature, w) \<Rightarrow>
             (case b_models of
                None \<Rightarrow> Inr (FINISHED, w)
              | Some models \<Rightarrow>
                  (case import_models bone_parent_table models armature w of
                     Inl e \<Rightarrow> Inl e
                   | Inr w \<Rightarrow> Inr (FINISHED, w)))))"

text \<open>\<^verbatim>\<open>parse_data\<close> returns \<^verbatim>\<open>False\<close> (\<open>None\<close>) or what \<^verbatim>\<open>groups_from_gmdc\<close> returned.\<close>

definition parse_data :: "gmdc \<Rightarrow> world \<Rightarrow> b_model list option \<times> world" where
  "parse_data gmdc_data w =
     (let w = decoder_call From_file_data w;
          w = decoder_call Load_header w
      in
      if load_header gmdc_data = False
      then (None, py_print (unsupported_message (file_type gmdc_data)) w)
      else
        (let w = decoder_call Load_data w;
             w = decoder_call Groups_from_gmdc w
         in (groups_from_gmdc gmdc_data, w)))"

section \<open>Closed forms\<close>

text \<open>
  The definitions of this section are not taken from the source. They describe, in
  closed form, what the loops of \<^verbatim>\<open>do_import\<close> do; the lemmas below prove that the
  model of the source computes exactly this.
\<close>

text \<open>
  The loops of lines 141-152 complete exactly when the normals cover the vertices and
  every vertex index of a face has a UV entry.
\<close>

definition mesh_loads :: "b_model \<Rightarrow> bool" where
  "mesh_loads m \<longleftrightarrow>
     length (vertices m) \<le> length (normals m)
     \<and> (\<forall>f\<in>set (faces m). \<forall>v\<in>set f. v < length (uvs m))"

text \<open>
  The condition of lines 160-161.
\<close>

definition count_mismatch :: "b_model \<Rightarrow> bool" where
  "count_mismatch m \<longleftrightarrow>
     length (vertices m) \<noteq> length (bone_assign m) \<or> length (vertices m) \<noteq> length (bone_weight m)"

text \<open>
  The mesh object as it stands when line 160 is reached.
\<close>

definition mesh_of :: "(string \<times> 'p) list \<Rightarrow> b_model \<Rightarrow> mesh_object" where
  "mesh_of tbl m =
     \<lparr>ob_name = name m, linked = True,
      mesh_vertices = map (\<lambda>(v, n). \<lparr>co = v, normal = n\<rparr>) (zip (vertices m) (normals m)),
      mesh_polygons = make_polygons 0 (faces m),
      uv_layers = [(''UVMap'', map (\<lambda>v. uvs m ! v) (concat (faces m)))],
      vertex_groups = map (\<lambda>val. \<lparr>vg_name = fst val, vg_calls = []\<rparr>) tbl\<rparr>"

text \<open>
  The position of the vertex group that \<^verbatim>\<open>object.vertex_groups[grpname]\<close> finds for
  the bone index \<open>b\<close>: the first table entry that carries the name of entry \<open>b\<close>.
\<close>

definition group_of :: "(string \<times> 'p) list \<Rightarrow> nat \<Rightarrow> nat" where
  "group_of tbl b = length (takeWhile (\<lambda>val. fst val \<noteq> fst (tbl ! b)) tbl)"

text \<open>
  The weight passed to \<^verbatim>\<open>add\<close> at position \<open>j\<close> of a vertex whose \<^verbatim>\<open>bone_weight\<close> row
  is \<open>row\<close>: the explicit weight, or at position 3 what is left of 1.0 after the first
  three. \<open>passed_weights\<close> is the same list as the loop produces it, from position \<open>j\<close>
  on with the running remainder.
\<close>

definition weight_at :: "real list \<Rightarrow> nat \<Rightarrow> real" where
  "weight_at row j = (if j \<noteq> 3 then row ! j else 1 - (row ! 0 + row ! 1 + row ! 2))"

fun passed_weights :: "real list \<Rightarrow> nat \<Rightarrow> nat \<Rightarrow> real \<Rightarrow> real list" where
  "passed_weights row j 0 remainder = []"
| "passed_weights row j (Suc n) remainder =
     (if j \<noteq> 3 then row ! j # passed_weights row (Suc j) n (remainder - row ! j)
      else remainder # passed_weights row (Suc j) n remainder)"

text \<open>
  The bone index and the weight of every call made for vertex \<open>i\<close>, and the condition
  under which the loop over \<open>j\<close> reads only entries that exist.
\<close>

definition assigned :: "b_model \<Rightarrow> nat \<Rightarrow> (nat \<times> real) list" where
  "assigned m i =
     zip (bone_assign m ! i)
         (map (weight_at (bone_weight m ! i)) [0..<length (bone_assign m ! i)])"

definition weights_readable :: "(string \<times> 'p) list \<Rightarrow> b_model \<Rightarrow> nat \<Rightarrow> nat \<Rightarrow> nat list \<Rightarrow> bool" where
  "weights_readable tbl m i j bs \<longleftrightarrow>
     (\<forall>b\<in>set bs. b < length tbl)
     \<and> (\<forall>x. j \<le> x \<and> x < j + length bs \<and> x \<noteq> 3
            \<longrightarrow> i < length (bone_weight m) \<and> x < length (bone_weight m ! i))"

definition all_readable :: "(string \<times> 'p) list \<Rightarrow> b_model \<Rightarrow> bool" where
  "all_readable tbl m \<longleftrightarrow>
     (\<forall>i<length (bone_assign m). weights_readable tbl m i 0 (bone_assign m ! i))"

text \<open>
  The calls that reach the vertex group at position \<open>k\<close> for vertex \<open>i\<close>, the effect of
  one pass of the loop over \<open>j\<close>, and the vertex groups after the loop over \<open>i\<close>.
\<close>

definition vertex_calls ::
  "(string \<times> 'p) list \<Rightarrow> b_model \<Rightarrow> nat \<Rightarrow> nat \<Rightarrow> (nat list \<times> real \<times> assign_mode) list" where
  "vertex_calls tbl m k i =
     map (\<lambda>(b, wt). ([i], wt, ADD)) (filter (\<lambda>(b, wt). group_of tbl b = k) (assigned m i))"

definition add_vertex :: "(string \<times> 'p) list \<Rightarrow> b_model \<Rightarrow> vertex_group list \<Rightarrow> nat \<Rightarrow> vertex_group list" where
  "add_vertex tbl m gs i =
     foldl (\<lambda>g (b, wt). vg_add (group_of tbl b) [i] wt ADD g) gs (assigned m i)"

definition weighted_groups :: "(string \<times> 'p) list \<Rightarrow> b_model \<Rightarrow> vertex_group list" where
  "weighted_groups tbl m =
     map (\<lambda>k. \<lparr>vg_name = fst (tbl ! k),
               vg_calls = concat (map (vertex_calls tbl m k) [0..<length (bone_assign m)])\<rparr>)
         [0..<length tbl]"

text \<open>
  Whether \<^verbatim>\<open>do_import\<close> returns for a group, and the string and the mesh object it
  then leaves.
\<close>

definition group_returns :: "(string \<times> 'p) list \<Rightarrow> b_model \<Rightarrow> bool" where
  "group_returns tbl m \<longleftrightarrow> mesh_loads m \<and> (count_mismatch m \<or> all_readable tbl m)"

definition group_object :: "(string \<times> 'p) list \<Rightarrow> b_model \<Rightarrow> mesh_object" where
  "group_object tbl m =
     (if count_mismatch m then mesh_of tbl m
      else (mesh_of tbl m)\<lparr>vertex_groups := weighted_groups tbl m\<rparr>)"

definition group_message :: "b_model \<Rightarrow> string" where
  "group_message m =
     (if count_mismatch m then mismatch_message (name m) else imported_message (name m))"

section \<open>Example inputs\<close>

text \<open>
  A skeleton of three bones: a root, a bone whose parent is the root, and a bone whose
  rotated translation coincides with its parent's tail.
\<close>

definition ex_bones :: "bonedata list" where
  "ex_bones =
     [\<lparr>bone_name = ''root'', position = (1, 0, 0), rotation = (1, 0, 0, 0), parent = None\<rparr>,
      \<lparr>bone_name = ''spine'', position = (0, 1, 2), rotation = (1, 0, 0, 0), parent = Some 0\<rparr>,
      \<lparr>bone_name = ''tip'', position = (0, 1, 2), rotation = (1, 0, 0, 0), parent = Some 1\<rparr>]"

definition ex_file :: gmdc where
  "ex_file = \<lparr>load_header = True, file_type = 0x1234, groups_from_gmdc = None,
     build_bones = ex_bones\<rparr>"

definition ex_edit_bones :: "edit_bone list" where
  "ex_edit_bones =
     [\<lparr>eb_name = ''root'', head = (0, 0, 0), tail = (1, 0, 0), bone_parent = None,
       props = \<lparr>tX = Some 1, tY = Some 0, tZ = Some 0, rW = Some 1, rX = Some 0, rY = Some 0,
                rZ = Some 0\<rparr>\<rparr>,
      \<lparr>eb_name = ''spine'', head = (1, 0, 0), tail = (0, 1, - 2), bone_parent = Some 0,
       props = \<lparr>tX = Some 0, tY = Some 1, tZ = Some 2, rW = Some 1, rX = Some 0, rY = Some 0,
                rZ = Some 0\<rparr>\<rparr>,
      \<lparr>eb_name = ''tip'', head = (0, 1, - 2), tail = (0, 100001 / 100000, - 2),
       bone_parent = Some 1,
       props = \<lparr>tX = Some 0, tY = Some 1, tZ = Some 2, rW = Some 1, rX = Some 0, rY = Some 0,
                rZ = Some 0\<rparr>\<rparr>]"

definition ex_armature :: armature_object where
  "ex_armature = \<lparr>arm_name = ''Armature'', show_x_ray = True, draw_type = ''STICK'',
     location = (0, 0, 0), scale = (1, 1, 1), mode = OBJECT, edit_bones = ex_edit_bones\<rparr>"

text \<open>
  The bones of the example at the end of the loop of lines 95-117, before the
  reflection.
\<close>

definition ex_loop_bones :: "edit_bone list" where
  "ex_loop_bones =
     [\<lparr>eb_name = ''root'', head = (0, 0, 0), tail = (1, 0, 0), bone_parent = None,
       props = \<lparr>tX = Some 1, tY = Some 0, tZ = Some 0, rW = Some 1, rX = Some 0, rY = Some 0,
                rZ = Some 0\<rparr>\<rparr>,
      \<lparr>eb_name = ''spine'', head = (1, 0, 0), tail = (0, 1, 2), bone_parent = Some 0,
       props = \<lparr>tX = Some 0, tY = Some 1, tZ = Some 2, rW = Some 1, rX = Some 0, rY = Some 0,
                rZ = Some 0\<rparr>\<rparr>,
      \<lparr>eb_name = ''tip'', head = (0, 1, 2), tail = vadd (0, 1, 2) zero_length_offset,
       bone_parent = Some 1,
       props = \<lparr>tX = Some 0, tY = Some 1, tZ = Some 2, rW = Some 1, rX = Some 0, rY = Some 0,
                rZ = Some 0\<rparr>\<rparr>]"

text \<open>
  The bones of the armature that \<^verbatim>\<open>import_skeleton\<close> returned (none after an
  exception).
\<close>

definition skeleton_bones :: "py_error + (armature_object \<times> world) \<Rightarrow> edit_bone list" where
  "skeleton_bones r = (case r of Inl e \<Rightarrow> [] | Inr (ob, w) \<Rightarrow> edit_bones ob)"

text \<open>
  A file whose only bone has the length \<open>2\<^sup>-\<^sup>1\<^sup>8\<close>, between the host's \<open>10\<^sup>-\<^sup>6\<close> and the
  \<open>epsilon\<close> of line 105, and a file whose header is not supported. Every coordinate of
  that bone is zero or a power of two and its rotation is the identity, so 32-bit
  floats represent and compute its head and tail exactly.
\<close>

definition short_bone_file :: gmdc where
  "short_bone_file = \<lparr>load_header = True, file_type = 0x1234, groups_from_gmdc = None,
     build_bones = [\<lparr>bone_name = ''root'', position = (0, 1 / 262144, 0), rotation = (1, 0, 0, 0),
                     parent = None\<rparr>]\<rparr>"

definition unsupported_file :: gmdc where
  "unsupported_file = \<lparr>load_header = False, file_type = 0x1234,
     groups_from_gmdc = None, build_bones = ex_bones\<rparr>"

text \<open>
  A bone table and three geometry groups: a group that imports (one vertex with four
  bone indices and three weights, one that names the same bone twice, one with a single
  index), a group whose counts do not match, and a group without normals.
\<close>

definition ex_table :: "(string \<times> string) list" where
  "ex_table = [(''root'', ''''), (''spine'', ''root''), (''tip'', ''spine''), (''hand'', ''spine'')]"

definition ex_model :: b_model where
  "ex_model = \<lparr>name = ''body'',
     vertices = [(0, 0, 0), (1, 0, 0), (0, 1, 0)],
     faces = [[0, 1, 2]],
     normals = [(0, 0, 1), (0, 0, 1), (0, 0, 1)],
     uvs = [(0, 0), (1, 0), (0, 1)],
     bone_assign = [[0, 1, 2, 3], [1, 1], [2]],
     bone_weight = [[1/2, 1/4, 1/8], [1/4, 1/2], [1]]\<rparr>"

definition ex_body_object :: mesh_object where
  "ex_body_object =
     \<lparr>ob_name = ''body'', linked = True,
      mesh_vertices = [\<lparr>co = (0, 0, 0), normal = (0, 0, 1)\<rparr>,
                       \<lparr>co = (1, 0, 0), normal = (0, 0, 1)\<rparr>,
                       \<lparr>co = (0, 1, 0), normal = (0, 0, 1)\<rparr>],
      mesh_polygons = [\<lparr>poly_vertices = [0, 1, 2], loop_start = 0, loop_total = 3\<rparr>],
      uv_layers = [(''UVMap'', [(0, 0), (1, 0), (0, 1)])],
      vertex_groups =
        [\<lparr>vg_name = ''root'', vg_calls = [([0], 1 / 2, ADD)]\<rparr>,
         \<lparr>vg_name = ''spine'', vg_calls = [([0], 1 / 4, ADD), ([1], 1 / 4, ADD), ([1], 1 / 2, ADD)]\<rparr>,
         \<lparr>vg_name = ''tip'', vg_calls = [([0], 1 / 8, ADD), ([2], 1, ADD)]\<rparr>,
         \<lparr>vg_name = ''hand'', vg_calls = [([0], 1 / 8, ADD)]\<rparr>]\<rparr>"

definition ex_mismatch :: b_model where
  "ex_mismatch = \<lparr>name = ''hair'',
     vertices = [(0, 0, 1), (1, 0, 1), (0, 1, 1)],
     faces = [[0, 1, 2]],
     normals = [(0, 0, 1), (0, 0, 1), (0, 0, 1)],
     uvs = [(0, 0), (1, 0), (0, 1)],
     bone_assign = [[0], [1]],
     bone_weight = [[1], [1], [1]]\<rparr>"

definition ex_hair_object :: mesh_object where
  "ex_hair_object =
     \<lparr>ob_name = ''hair'', linked = True,
      mesh_vertices = [\<lparr>co = (0, 0, 1), normal = (0, 0, 1)\<rparr>,
                       \<lparr>co = (1, 0, 1), normal = (0, 0, 1)\<rparr>,
                       \<lparr>co = (0, 1, 1), normal = (0, 0, 1)\<rparr>],
      mesh_polygons = [\<lparr>poly_vertices = [0, 1, 2], loop_start = 0, loop_total = 3\<rparr>],
      uv_layers = [(''UVMap'', [(0, 0), (1, 0), (0, 1)])],
      vertex_groups =
        [\<lparr>vg_name = ''root'', vg_calls = []\<rparr>, \<lparr>vg_name = ''spine'', vg_calls = []\<rparr>,
         \<lparr>vg_name = ''tip'', vg_calls = []\<rparr>, \<lparr>vg_name = ''hand'', vg_calls = []\<rparr>]\<rparr>"

definition ex_shadow :: b_model where
  "ex_shadow = \<lparr>name = ''shadow'',
     vertices = [(0, 0, 0), (1, 0, 0), (0, 1, 0)],
     faces = [[0, 1, 2]],
     normals = [],
     uvs = [],
     bone_assign = [],
     bone_weight = []\<rparr>"

section \<open>The skeleton\<close>

text \<open>
  The loop over \<^verbatim>\<open>skeldata\<close> returns when every parent index refers to the bone
  itself or to an earlier one, and its result holds one bone per entry, each built by
  \<open>create_bone\<close> from the bones before it.
\<close>

lemma create_bones_total:
  "(\<And>k p. k < length skeldata \<Longrightarrow> parent (skeldata ! k) = Some p \<Longrightarrow> p \<le> length bones + k)
   \<Longrightarrow> \<exists>res. create_bones skeldata bones = Inr res"
proof (induction skeldata arbitrary: bones)
  case Nil
  then show ?case by simp
next
  case (Cons bd rest)
  have p0: "\<And>p. parent bd = Some p \<Longrightarrow> p \<le> length bones"
    using Cons.prems [of 0] by simp
  obtain bone where b: "create_bone bones bd = Inr bone"
    using p0 by (cases "parent bd") (auto simp: create_bone_def Let_def py_index_def)
  have "\<And>k p. k < length rest \<Longrightarrow> parent (rest ! k) = Some p \<Longrightarrow> p \<le> length (bones @ [bone]) + k"
    using Cons.prems [of "Suc _"] by fastforce
  from Cons.IH [OF this] b show ?case by auto
qed

lemma create_bones_nth:
  "create_bones skeldata bones = Inr res \<Longrightarrow>
     length res = length bones + length skeldata \<and> take (length bones) res = bones \<and>
     (\<forall>k<length skeldata.
        create_bone (take (length bones + k) res) (skeldata ! k) = Inr (res ! (length bones + k)))"
proof (induction skeldata arbitrary: bones)
  case Nil
  then show ?case by simp
next
  case (Cons bd rest)
  from Cons.prems obtain bone where b: "create_bone bones bd = Inr bone"
    and r: "create_bones rest (bones @ [bone]) = Inr res"
    by (auto split: sum.splits)
  from Cons.IH [OF r] have len: "length res = length bones + 1 + length rest"
    and tk: "take (Suc (length bones)) res = bones @ [bone]"
    and nth: "\<forall>k<length rest.
        create_bone (take (Suc (length bones) + k) res) (rest ! k) = Inr (res ! (Suc (length bones) + k))"
    by simp_all
  have "take (length bones) (take (Suc (length bones)) res) = take (length bones) (bones @ [bone])"
    using tk by simp
  then have tk0: "take (length bones) res = bones" by simp
  have "res ! length bones = (take (Suc (length bones)) res) ! length bones" by simp
  then have n0: "res ! length bones = bone" using tk by simp
  have "create_bone (take (length bones + k) res) ((bd # rest) ! k) = Inr (res ! (length bones + k))"
    if "k < length (bd # rest)" for k
  proof (cases k)
    case 0
    then show ?thesis using tk0 n0 b by simp
  next
    case (Suc k')
    then show ?thesis using nth that by simp
  qed
  then show ?case using len tk0 by simp
qed

lemma create_bone_head:
  "create_bone bones bd = Inr b \<Longrightarrow>
     head b = (case parent bd of None \<Rightarrow> (0, 0, 0)
               | Some p \<Rightarrow> if p < length bones then tail (bones ! p)
                           else quat_rotate (rotation bd) (position bd))"
  by (auto simp: create_bone_def Let_def py_index_def nth_append edit_bones_new_def
      split: option.splits if_splits)

lemma create_bone_tail:
  "create_bone bones bd = Inr b \<Longrightarrow>
     tail b = (if quat_rotate (rotation bd) (position bd) = head b
               then vadd (quat_rotate (rotation bd) (position bd)) zero_length_offset
               else quat_rotate (rotation bd) (position bd))"
  by (auto simp: create_bone_def Let_def py_index_def nth_append edit_bones_new_def
      split: option.splits if_splits)

lemma create_bone_props:
  "create_bone bones bd = Inr b \<Longrightarrow>
     eb_name b = bone_name bd \<and> bone_parent b = parent bd \<and>
     props b = \<lparr>tX = Some (fst (position bd)), tY = Some (fst (snd (position bd))),
                tZ = Some (snd (snd (position bd))),
                rW = Some (fst (rotation bd)), rX = Some (fst (snd (rotation bd))),
                rY = Some (fst (snd (snd (rotation bd)))),
                rZ = Some (snd (snd (snd (rotation bd))))\<rparr>"
  by (auto simp: create_bone_def Let_def py_index_def edit_bones_new_def split: option.splits if_splits)

lemma import_skeleton_Inr:
  "import_skeleton data w = Inr (ob, w') \<Longrightarrow>
     \<exists>bones. create_bones (build_bones data) [] = Inr bones \<and>
       ob = transform_apply_scale (transform_resize (1, 1, -1)
              \<lparr>arm_name = ''Armature'', show_x_ray = True, draw_type = ''STICK'',
               location = (0, 0, 0), scale = (1, 1, 1), mode = OBJECT, edit_bones = bones\<rparr>) \<and>
       w' = w\<lparr>decoder_calls := decoder_calls w @ [Build_bones], armatures := armatures w @ [ob]\<rparr>"
  by (auto simp: import_skeleton_def Let_def object_add_armature_def decoder_call_def
      split: sum.splits)

lemma mirrored_bones:
  "edit_bones (transform_apply_scale (transform_resize (1, 1, -1)
              \<lparr>arm_name = n, show_x_ray = x, draw_type = d,
               location = l, scale = (1, 1, 1), mode = md, edit_bones = bones\<rparr>))
   = map (\<lambda>b. b\<lparr>head := vscale (1, 1, -1) (head b), tail := vscale (1, 1, -1) (tail b)\<rparr>) bones"
  by (simp add: transform_apply_scale_def transform_resize_def vscale_def)

lemma vscale_mirror_inj: "vscale (1, 1, -1) a = vscale (1, 1, -1) b \<longleftrightarrow> a = b"
  by (cases a; cases b) (simp add: vscale_def)

lemma vscale_mirror_origin: "vscale (1, 1, -1) (0, 0, 0) = (0, 0, 0)"
  by (simp add: vscale_def)

subsection \<open>Bone positions\<close>

lemma ex_import_skeleton:
  "import_skeleton ex_file empty_world =
     Inr (ex_armature, \<lparr>decoder_calls = [Build_bones], console = [], armatures = [ex_armature],
                         objects = []\<rparr>)"
  by (simp add: import_skeleton_def ex_file_def ex_bones_def ex_armature_def ex_edit_bones_def
      empty_world_def decoder_call_def object_add_armature_def create_bone_def edit_bones_new_def
      quat_rotate_def py_index_def vadd_def vscale_def zero_length_offset_def epsilon_def
      transform_resize_def transform_apply_scale_def Let_def)

lemma import_skeleton_bones:
  assumes "import_skeleton data w = Inr (ob, w')"
  shows "\<exists>bones. create_bones (build_bones data) [] = Inr bones \<and>
           length bones = length (build_bones data) \<and>
           edit_bones ob = map (\<lambda>b. b\<lparr>head := mirror_z (head b), tail := mirror_z (tail b)\<rparr>) bones \<and>
           (\<forall>k<length (build_bones data).
              create_bone (take k bones) (build_bones data ! k) = Inr (bones ! k))"
proof -
  from import_skeleton_Inr [OF assms] obtain bones where
    cb: "create_bones (build_bones data) [] = Inr bones" and
    ob: "ob = transform_apply_scale (transform_resize (1, 1, -1)
              \<lparr>arm_name = ''Armature'', show_x_ray = True, draw_type = ''STICK'',
               location = (0, 0, 0), scale = (1, 1, 1), mode = OBJECT, edit_bones = bones\<rparr>)"
    by blast
  have eb: "edit_bones ob = map (\<lambda>b. b\<lparr>head := mirror_z (head b), tail := mirror_z (tail b)\<rparr>) bones"
    unfolding ob mirrored_bones mirror_z_def ..
  from create_bones_nth [OF cb] eb cb show ?thesis by simp
qed

text \<open>
  C2 (amended). When \<^verbatim>\<open>import_skeleton\<close> returns, the tail of every bone is the
  bone's own rotation applied to its own translation (\<open>rot_trans\<close>), moved by
  \<open>zero_length_offset\<close> when that point coincides with the head, and mirrored along Z;
  the parent's tail is not added to it. The head of a bone without parent is the
  origin, the head of a bone whose parent comes earlier in the table is that parent's
  tail.
\<close>

theorem import_skeleton_bone_position:
  assumes "import_skeleton data w = Inr (ob, w')" and "k < length (build_bones data)"
  shows "tail (edit_bones ob ! k) =
           mirror_z (if mirror_z (rot_trans (build_bones data ! k)) = head (edit_bones ob ! k)
                     then vadd (rot_trans (build_bones data ! k)) zero_length_offset
                     else rot_trans (build_bones data ! k))
         \<and> head (edit_bones ob ! k) =
           (case parent (build_bones data ! k) of
              None \<Rightarrow> (0, 0, 0)
            | Some p \<Rightarrow> if p < k then tail (edit_bones ob ! p)
                        else mirror_z (rot_trans (build_bones data ! k)))"
proof -
  from import_skeleton_bones [OF assms(1)] obtain bones where
    len: "length bones = length (build_bones data)" and
    eb: "edit_bones ob = map (\<lambda>b. b\<lparr>head := mirror_z (head b), tail := mirror_z (tail b)\<rparr>) bones" and
    nth: "\<forall>k<length (build_bones data).
              create_bone (take k bones) (build_bones data ! k) = Inr (bones ! k)"
    by blast
  let ?bd = "build_bones data ! k"
  from nth assms(2) have cb: "create_bone (take k bones) ?bd = Inr (bones ! k)" by simp
  have kl: "k < length bones" using len assms(2) by simp
  have h: "head (edit_bones ob ! k) = mirror_z (head (bones ! k))"
    and t: "tail (edit_bones ob ! k) = mirror_z (tail (bones ! k))"
    using kl by (simp_all add: eb)
  have inj: "mirror_z (rot_trans ?bd) = mirror_z (head (bones ! k)) \<longleftrightarrow> rot_trans ?bd = head (bones ! k)"
    by (simp add: mirror_z_def vscale_mirror_inj)
  have "tail (bones ! k) = (if rot_trans ?bd = head (bones ! k)
          then vadd (rot_trans ?bd) zero_length_offset else rot_trans ?bd)"
    using create_bone_tail [OF cb] by (simp add: rot_trans_def)
  then have T: ?thesis if "True" "head (edit_bones ob ! k) =
           (case parent (build_bones data ! k) of
              None \<Rightarrow> (0, 0, 0)
            | Some p \<Rightarrow> if p < k then tail (edit_bones ob ! p)
                        else mirror_z (rot_trans (build_bones data ! k)))"
    using that h t inj by simp
  have "head (bones ! k) = (case parent ?bd of None \<Rightarrow> (0, 0, 0)
               | Some p \<Rightarrow> if p < k then tail (bones ! p) else rot_trans ?bd)"
    using create_bone_head [OF cb] kl by (simp add: rot_trans_def min_def split: option.splits)
  then have "head (edit_bones ob ! k) =
           (case parent ?bd of None \<Rightarrow> (0, 0, 0)
            | Some p \<Rightarrow> if p < k then tail (edit_bones ob ! p) else mirror_z (rot_trans ?bd))"
    using h kl by (auto simp: eb mirror_z_def vscale_mirror_origin split: option.splits)
  with T show ?thesis by simp
qed

text \<open>The third bone of the example: its parent is the second bone.\<close>

theorem import_skeleton_bone_position_witness:
  "import_skeleton ex_file empty_world =
     Inr (ex_armature, \<lparr>decoder_calls = [Build_bones], console = [], armatures = [ex_armature],
                         objects = []\<rparr>)
   \<and> (2::nat) < length (build_bones ex_file)
   \<and> rot_trans (build_bones ex_file ! 2) = (0, 1, 2)
   \<and> tail (edit_bones ex_armature ! 2) = (0, 100001 / 100000, - 2)
   \<and> head (edit_bones ex_armature ! 2) = tail (edit_bones ex_armature ! 1)"
proof -
  have k: "(2::nat) < length (build_bones ex_file)" by (simp add: ex_file_def ex_bones_def)
  have e: "ex_edit_bones ! 2 = \<lparr>eb_name = ''tip'', head = (0, 1, - 2), tail = (0, 100001 / 100000, - 2),
       bone_parent = Some 1,
       props = \<lparr>tX = Some 0, tY = Some 1, tZ = Some 2, rW = Some 1, rX = Some 0, rY = Some 0,
                rZ = Some 0\<rparr>\<rparr>" by (simp add: ex_edit_bones_def)
  have p: "parent (build_bones ex_file ! 2) = Some 1" by (simp add: ex_file_def ex_bones_def)
  have r: "rot_trans (build_bones ex_file ! 2) = (0, 1, 2)"
    by (simp add: ex_file_def ex_bones_def rot_trans_def quat_rotate_def)
  from import_skeleton_bone_position [OF ex_import_skeleton k]
  show ?thesis using ex_import_skeleton k r
    by (simp add: p ex_armature_def e)
qed

text \<open>
  C2 as stated fails on the second bone of the example. Its parent's tail is
  \<open>(1, 0, 0)\<close> and its rotated translation is \<open>(0, 1, 2)\<close>; the bone's tail is
  \<open>(0, 1, -2)\<close>, which is the sum neither before nor after the mirroring.
\<close>

theorem chain_rule_counterexample:
  "parent (build_bones ex_file ! 1) = Some 0
   \<and> tail (skeleton_bones (import_skeleton ex_file empty_world) ! 0) = (1, 0, 0)
   \<and> rot_trans (build_bones ex_file ! 1) = (0, 1, 2)
   \<and> tail (skeleton_bones (import_skeleton ex_file empty_world) ! 1) = (0, 1, - 2)
   \<and> tail (skeleton_bones (import_skeleton ex_file empty_world) ! 1)
        \<noteq> vadd (tail (skeleton_bones (import_skeleton ex_file empty_world) ! 0))
               (rot_trans (build_bones ex_file ! 1))
   \<and> tail (skeleton_bones (import_skeleton ex_file empty_world) ! 1)
        \<noteq> vadd (tail (skeleton_bones (import_skeleton ex_file empty_world) ! 0))
               (mirror_z (rot_trans (build_bones ex_file ! 1)))"
proof -
  have b: "skeleton_bones (import_skeleton ex_file empty_world) = ex_edit_bones"
    by (simp add: ex_import_skeleton skeleton_bones_def ex_armature_def)
  have r: "rot_trans (build_bones ex_file ! 1) = (0, 1, 2)"
    by (simp add: ex_file_def ex_bones_def rot_trans_def quat_rotate_def)
  have p: "parent (build_bones ex_file ! 1) = Some 0"
    by (simp add: ex_file_def ex_bones_def)
  show ?thesis
    unfolding b r p by (simp add: ex_edit_bones_def vadd_def mirror_z_def vscale_def)
qed

subsection \<open>Zero-length bones\<close>

text \<open>
  The loop of \<open>import_skeleton\<close> is the loop with parameters at exact operations, and
  the loop with parameters builds its bones one by one like \<open>create_bones\<close>.
\<close>

lemma create_bone_exact:
  "create_bone_with (=) vadd quat_rotate bones bd = create_bone bones bd"
  by (simp add: create_bone_with_def create_bone_def)

lemma create_bones_exact:
  "create_bones_with (=) vadd quat_rotate skeldata bones = create_bones skeldata bones"
  by (induction skeldata arbitrary: bones) (simp_all add: create_bone_exact split: sum.splits)

lemma import_skeleton_loop:
  assumes "import_skeleton data w = Inr (ob, w')"
  shows "\<exists>bones. create_bones_with (=) vadd quat_rotate (build_bones data) [] = Inr bones \<and>
           edit_bones ob = map (\<lambda>b. b\<lparr>head := mirror_z (head b), tail := mirror_z (tail b)\<rparr>) bones"
  using import_skeleton_bones [OF assms] unfolding create_bones_exact by blast

lemma create_bones_with_nth:
  "create_bones_with eq add rot skeldata bones = Inr res \<Longrightarrow>
     length res = length bones + length skeldata \<and> take (length bones) res = bones \<and>
     (\<forall>k<length skeldata.
        create_bone_with eq add rot (take (length bones + k) res) (skeldata ! k)
          = Inr (res ! (length bones + k)))"
proof (induction skeldata arbitrary: bones)
  case Nil
  then show ?case by simp
next
  case (Cons bd rest)
  from Cons.prems obtain bone where b: "create_bone_with eq add rot bones bd = Inr bone"
    and r: "create_bones_with eq add rot rest (bones @ [bone]) = Inr res"
    by (auto split: sum.splits)
  from Cons.IH [OF r] have len: "length res = length bones + 1 + length rest"
    and tk: "take (Suc (length bones)) res = bones @ [bone]"
    and nth: "\<forall>k<length rest.
        create_bone_with eq add rot (take (Suc (length bones) + k) res) (rest ! k)
          = Inr (res ! (Suc (length bones) + k))"
    by simp_all
  have "take (length bones) (take (Suc (length bones)) res) = take (length bones) (bones @ [bone])"
    using tk by simp
  then have tk0: "take (length bones) res = bones" by simp
  have "res ! length bones = (take (Suc (length bones)) res) ! length bones" by simp
  then have n0: "res ! length bones = bone" using tk by simp
  have "create_bone_with eq add rot (take (length bones + k) res) ((bd # rest) ! k)
          = Inr (res ! (length bones + k))"
    if "k < length (bd # rest)" for k
  proof (cases k)
    case 0
    then show ?thesis using tk0 n0 b by simp
  next
    case (Suc k')
    then show ?thesis using nth that by simp
  qed
  then show ?case using len tk0 by simp
qed

lemma create_bone_with_head:
  "create_bone_with eq add rot bones bd = Inr b \<Longrightarrow>
     head b = (case parent bd of None \<Rightarrow> (0, 0, 0)
               | Some p \<Rightarrow> if p < length bones then tail (bones ! p)
                           else rot (rotation bd) (position bd))"
  by (auto simp: create_bone_with_def Let_def py_index_def nth_append edit_bones_new_def
      split: option.splits if_splits)

lemma create_bone_with_tail:
  "create_bone_with eq add rot bones bd = Inr b \<Longrightarrow>
     tail b = (if eq (rot (rotation bd) (position bd)) (head b)
               then add (rot (rotation bd) (position bd)) zero_length_offset
               else rot (rotation bd) (position bd))"
  by (auto simp: create_bone_with_def Let_def py_index_def nth_append edit_bones_new_def
      split: option.splits if_splits)

lemma ex_create_bones_with:
  "create_bones_with (=) vadd quat_rotate ex_bones [] = Inr ex_loop_bones"
  by (simp add: ex_bones_def ex_loop_bones_def create_bone_with_def edit_bones_new_def
      quat_rotate_def py_index_def Let_def)

lemma short_import_skeleton:
  "skeleton_bones (import_skeleton short_bone_file empty_world) =
     [\<lparr>eb_name = ''root'', head = (0, 0, 0), tail = (0, 1 / 262144, 0), bone_parent = None,
       props = \<lparr>tX = Some 0, tY = Some (1 / 262144), tZ = Some 0, rW = Some 1, rX = Some 0,
                rY = Some 0, rZ = Some 0\<rparr>\<rparr>]"
  by (simp add: import_skeleton_def short_bone_file_def skeleton_bones_def
      empty_world_def decoder_call_def object_add_armature_def create_bone_def edit_bones_new_def
      quat_rotate_def py_index_def vadd_def vscale_def zero_length_offset_def epsilon_def
      transform_resize_def transform_apply_scale_def Let_def)

text \<open>
  C6 as stated fails: a root bone whose translation is \<open>2\<^sup>-\<^sup>1\<^sup>8\<close> along Y has a tail that
  differs from its head, so the guard of line 104 does not hold and the tail is not
  moved. The armature returned holds this one bone, with its tail closer to its head
  than \<open>epsilon\<close>. The bone is longer than \<open>10\<^sup>-\<^sup>6\<close>, so the host keeps it when the armature
  leaves edit mode, and its coordinates are exact in 32-bit floats.
\<close>

theorem zero_length_counterexample:
  "length (skeleton_bones (import_skeleton short_bone_file empty_world)) = 1
   \<and> head (skeleton_bones (import_skeleton short_bone_file empty_world) ! 0) = (0, 0, 0)
   \<and> tail (skeleton_bones (import_skeleton short_bone_file empty_world) ! 0) = (0, 1 / 262144, 0)
   \<and> bone_kept_by_host (skeleton_bones (import_skeleton short_bone_file empty_world) ! 0)
   \<and> dist_sq (tail (skeleton_bones (import_skeleton short_bone_file empty_world) ! 0))
              (head (skeleton_bones (import_skeleton short_bone_file empty_world) ! 0))
       < epsilon\<^sup>2"
  unfolding short_import_skeleton
  by (simp add: dist_sq_def epsilon_def power2_eq_square bone_kept_by_host_def)

text \<open>
  C6 (amended). At the end of the loop of lines 95-117, whatever the host's vector
  operations compute: a bone whose computed tail \<^verbatim>\<open>rot * trans\<close> compares equal to its
  head has as its tail the host's sum of that point and the fixed vector
  \<open>(0, 0.00001, 0)\<close>, the epsilon along Y; a bone whose computed tail does not compare
  equal to its head keeps it, however close the two are. The head is the origin for a
  bone without parent and the tail of the parent for a bone whose parent comes earlier
  in the table. Nothing is promised about the distance of tail and head afterwards:
  that depends on what the host's \<^verbatim>\<open>==\<close> and \<^verbatim>\<open>+=\<close> do on 32-bit floats.
\<close>

theorem zero_length_perturbed:
  assumes "create_bones_with vec_eq vec_add quat_mul skeldata [] = Inr bones"
    and "k < length skeldata"
  shows "tail (bones ! k) =
           (if vec_eq (quat_mul (rotation (skeldata ! k)) (position (skeldata ! k))) (head (bones ! k))
            then vec_add (quat_mul (rotation (skeldata ! k)) (position (skeldata ! k)))
                   zero_length_offset
            else quat_mul (rotation (skeldata ! k)) (position (skeldata ! k)))
         \<and> head (bones ! k) =
           (case parent (skeldata ! k) of
              None \<Rightarrow> (0, 0, 0)
            | Some p \<Rightarrow> if p < k then tail (bones ! p)
                        else quat_mul (rotation (skeldata ! k)) (position (skeldata ! k)))
         \<and> zero_length_offset = (0, 1 / 100000, 0)
         \<and> length bones = length skeldata"
proof -
  from create_bones_with_nth [OF assms(1)] have len: "length bones = length skeldata"
    and nth: "\<forall>k<length skeldata.
        create_bone_with vec_eq vec_add quat_mul (take k bones) (skeldata ! k) = Inr (bones ! k)"
    by simp_all
  from nth assms(2) have cb:
    "create_bone_with vec_eq vec_add quat_mul (take k bones) (skeldata ! k) = Inr (bones ! k)"
    by simp
  have kl: "k < length bones" using len assms(2) by simp
  have h: "head (bones ! k) =
           (case parent (skeldata ! k) of
              None \<Rightarrow> (0, 0, 0)
            | Some p \<Rightarrow> if p < k then tail (bones ! p)
                        else quat_mul (rotation (skeldata ! k)) (position (skeldata ! k)))"
    using create_bone_with_head [OF cb] kl by (simp add: min_def split: option.splits)
  have off: "zero_length_offset = (0, 1 / 100000, 0)"
    by (simp add: zero_length_offset_def epsilon_def)
  from create_bone_with_tail [OF cb] h off len show ?thesis by simp
qed

text \<open>
  The third bone of the example, with exact operations: its computed tail is its
  parent's tail, which is its head, so its tail is moved.
\<close>

theorem zero_length_perturbed_witness:
  "create_bones_with (=) vadd quat_rotate ex_bones [] = Inr ex_loop_bones
   \<and> (2::nat) < length ex_bones
   \<and> quat_rotate (rotation (ex_bones ! 2)) (position (ex_bones ! 2)) = (0, 1, 2)
   \<and> head (ex_loop_bones ! 2) = (0, 1, 2)
   \<and> tail (ex_loop_bones ! 2) = vadd (0, 1, 2) zero_length_offset
   \<and> head (ex_loop_bones ! 2) = tail (ex_loop_bones ! 1)"
proof -
  have k: "(2::nat) < length ex_bones" by (simp add: ex_bones_def)
  have r: "quat_rotate (rotation (ex_bones ! 2)) (position (ex_bones ! 2)) = (0, 1, 2)"
    by (simp add: ex_bones_def quat_rotate_def)
  have p: "parent (ex_bones ! 2) = Some 1" by (simp add: ex_bones_def)
  have h: "head (ex_loop_bones ! 2) = (0, 1, 2)" by (simp add: ex_loop_bones_def)
  from zero_length_perturbed [OF ex_create_bones_with k]
  show ?thesis using ex_create_bones_with k r h by (simp add: p)
qed

subsection \<open>The reflection\<close>

text \<open>
  C7. The armature returned by \<^verbatim>\<open>import_skeleton\<close> is the armature holding the
  bones of the loop, resized once by \<open>(1, 1, -1)\<close> with the scale applied: every head
  and tail has its Z coordinate negated and nothing else. Names, parents and the stored
  \<^verbatim>\<open>tX .. rZ\<close> values are those of the bone table, location and scale of the object
  are the defaults, and of the world only the list of armatures and the record of the
  \<^verbatim>\<open>build_bones\<close> call change.
\<close>

theorem import_skeleton_mirror_once:
  assumes "import_skeleton data w = Inr (ob, w')"
  shows "\<exists>bones. create_bones (build_bones data) [] = Inr bones
           \<and> ob = transform_apply_scale (transform_resize (1, 1, -1)
                    \<lparr>arm_name = ''Armature'', show_x_ray = True, draw_type = ''STICK'',
                     location = (0, 0, 0), scale = (1, 1, 1), mode = OBJECT, edit_bones = bones\<rparr>)
           \<and> edit_bones ob =
               map (\<lambda>b. b\<lparr>head := mirror_z (head b), tail := mirror_z (tail b)\<rparr>) bones
           \<and> (\<forall>x y z. mirror_z (x, y, z) = (x, y, - z))
           \<and> length (edit_bones ob) = length (build_bones data)
           \<and> (\<forall>k<length (build_bones data).
                 eb_name (edit_bones ob ! k) = bone_name (build_bones data ! k)
                 \<and> bone_parent (edit_bones ob ! k) = parent (build_bones data ! k)
                 \<and> props (edit_bones ob ! k) =
                     \<lparr>tX = Some (fst (position (build_bones data ! k))),
                      tY = Some (fst (snd (position (build_bones data ! k)))),
                      tZ = Some (snd (snd (position (build_bones data ! k)))),
                      rW = Some (fst (rotation (build_bones data ! k))),
                      rX = Some (fst (snd (rotation (build_bones data ! k)))),
                      rY = Some (fst (snd (snd (rotation (build_bones data ! k))))),
                      rZ = Some (snd (snd (snd (rotation (build_bones data ! k)))))\<rparr>)
           \<and> location ob = (0, 0, 0) \<and> scale ob = (1, 1, 1)
           \<and> w' = w\<lparr>decoder_calls := decoder_calls w @ [Build_bones],
                     armatures := armatures w @ [ob]\<rparr>
           \<and> objects w' = objects w \<and> console w' = console w"
proof -
  from import_skeleton_Inr [OF assms] obtain bones where
    cb: "create_bones (build_bones data) [] = Inr bones" and
    ob: "ob = transform_apply_scale (transform_resize (1, 1, -1)
              \<lparr>arm_name = ''Armature'', show_x_ray = True, draw_type = ''STICK'',
               location = (0, 0, 0), scale = (1, 1, 1), mode = OBJECT, edit_bones = bones\<rparr>)" and
    w': "w' = w\<lparr>decoder_calls := decoder_calls w @ [Build_bones], armatures := armatures w @ [ob]\<rparr>"
    by blast
  have eb: "edit_bones ob = map (\<lambda>b. b\<lparr>head := mirror_z (head b), tail := mirror_z (tail b)\<rparr>) bones"
    unfolding ob mirrored_bones mirror_z_def ..
  from create_bones_nth [OF cb] have len: "length bones = length (build_bones data)"
    and nth: "\<forall>k<length (build_bones data).
        create_bone (take k bones) (build_bones data ! k) = Inr (bones ! k)"
    by simp_all
  have pr: "eb_name (edit_bones ob ! k) = bone_name (build_bones data ! k)
                 \<and> bone_parent (edit_bones ob ! k) = parent (build_bones data ! k)
                 \<and> props (edit_bones ob ! k) =
                     \<lparr>tX = Some (fst (position (build_bones data ! k))),
                      tY = Some (fst (snd (position (build_bones data ! k)))),
                      tZ = Some (snd (snd (position (build_bones data ! k)))),
                      rW = Some (fst (rotation (build_bones data ! k))),
                      rX = Some (fst (snd (rotation (build_bones data ! k)))),
                      rY = Some (fst (snd (snd (rotation (build_bones data ! k))))),
                      rZ = Some (snd (snd (snd (rotation (build_bones data ! k)))))\<rparr>"
    if "k < length (build_bones data)" for k
  proof -
    from nth that have "create_bone (take k bones) (build_bones data ! k) = Inr (bones ! k)" by simp
    from create_bone_props [OF this] that len show ?thesis by (simp add: eb)
  qed
  have m: "\<forall>x y z. mirror_z (x, y, z) = (x, y, - z)" by (simp add: mirror_z_def vscale_def)
  have ls: "location ob = (0, 0, 0) \<and> scale ob = (1, 1, 1)"
    by (simp add: ob transform_apply_scale_def transform_resize_def)
  have wf: "objects w' = objects w \<and> console w' = console w" by (simp add: w')
  have le: "length (edit_bones ob) = length (build_bones data)" by (simp add: eb len)
  show ?thesis
    apply (rule exI [of _ bones])
    using cb ob eb m le pr ls w' wf by blast
qed

text \<open>The example skeleton before and after the reflection.\<close>

theorem import_skeleton_mirror_once_witness:
  "import_skeleton ex_file empty_world =
     Inr (ex_armature, \<lparr>decoder_calls = [Build_bones], console = [], armatures = [ex_armature],
                         objects = []\<rparr>)
   \<and> map tail (edit_bones ex_armature) = [(1, 0, 0), (0, 1, - 2), (0, 100001 / 100000, - 2)]
   \<and> props (edit_bones ex_armature ! 1) =
        \<lparr>tX = Some 0, tY = Some 1, tZ = Some 2, rW = Some 1, rX = Some 0, rY = Some 0, rZ = Some 0\<rparr>
   \<and> (\<exists>bones. create_bones (build_bones ex_file) [] = Inr bones
        \<and> map tail bones = [(1, 0, 0), (0, 1, 2), (0, 100001 / 100000, 2)])"
proof -
  from import_skeleton_mirror_once [OF ex_import_skeleton] obtain bones where
    cb: "create_bones (build_bones ex_file) [] = Inr bones" and
    eb: "edit_bones ex_armature =
               map (\<lambda>b. b\<lparr>head := mirror_z (head b), tail := mirror_z (tail b)\<rparr>) bones"
    by blast
  have "map tail (edit_bones ex_armature) = map mirror_z (map tail bones)"
    by (simp add: eb)
  then have "map mirror_z (map mirror_z (map tail bones)) = map mirror_z (map tail (edit_bones ex_armature))"
    by simp
  moreover have "map mirror_z (map mirror_z (map tail bones)) = map tail bones"
    by (induction bones) (auto simp: mirror_z_def vscale_def split: prod.splits)
  ultimately have "map tail bones = map mirror_z (map tail (edit_bones ex_armature))" by simp
  then have "map tail bones = [(1, 0, 0), (0, 1, 2), (0, 100001 / 100000, 2)]"
    by (simp add: ex_armature_def ex_edit_bones_def mirror_z_def vscale_def)
  with cb show ?thesis using ex_import_skeleton
    by (simp add: ex_armature_def ex_edit_bones_def)
qed

section \<open>do\_import\<close>

subsection \<open>Building the mesh\<close>

text \<open>
  The three loops that fill the mesh either complete with the whole list written or
  raise \<^verbatim>\<open>IndexError\<close>.
\<close>

lemma load_normals_eq:
  "load_normals ns i verts =
     (if verts = [] \<or> i + length verts \<le> length ns
      then Inr (map (\<lambda>(v, n). v\<lparr>normal := n\<rparr>) (zip verts (drop i ns)))
      else Inl IndexError)"
proof (induction verts arbitrary: i)
  case Nil
  then show ?case by simp
next
  case (Cons vert verts)
  show ?case
  proof (cases "i < length ns")
    case False
    then show ?thesis by (simp add: py_index_def)
  next
    case True
    then have d: "drop i ns = ns ! i # drop (Suc i) ns"
      by (simp add: Cons_nth_drop_Suc)
    show ?thesis
      using True by (auto simp: py_index_def Cons.IH d)
  qed
qed

lemma make_polygons_faces: "map poly_vertices (make_polygons s fs) = fs"
  by (induction fs arbitrary: s) auto

lemma make_polygons_total:
  "sum_list (map loop_total (make_polygons s fs)) = length (concat fs)"
  by (induction fs arbitrary: s) auto

lemma load_uvs_polygon_eq:
  assumes "i < length (faces m)" and "j \<le> length (faces m ! i)"
    and "s + length (faces m ! i) \<le> length uvdata"
  shows "load_uvs_polygon m i j [s + j ..< s + length (faces m ! i)] uvdata =
     (if \<forall>v\<in>set (drop j (faces m ! i)). v < length (uvs m)
      then Inr (take (s + j) uvdata @ map (\<lambda>v. uvs m ! v) (drop j (faces m ! i))
                 @ drop (s + length (faces m ! i)) uvdata)
      else Inl IndexError)"
  using assms
proof (induction "length (faces m ! i) - j" arbitrary: j uvdata)
  case 0
  then have "j = length (faces m ! i)" by simp
  then show ?case by simp
next
  case (Suc n)
  let ?face = "faces m ! i"
  from Suc.hyps(2) have jl: "j < length ?face" by simp
  then have up: "[s + j ..< s + length ?face] = (s + j) # [s + Suc j ..< s + length ?face]"
    by (simp add: upt_conv_Cons)
  have dj: "drop j ?face = ?face ! j # drop (Suc j) ?face"
    using jl by (simp add: Cons_nth_drop_Suc)
  have sj: "s + j < length uvdata" using jl Suc.prems(3) by simp
  show ?case
  proof (cases "?face ! j < length (uvs m)")
    case False
    then have "\<not> (\<forall>v\<in>set (drop j ?face). v < length (uvs m))" by (simp add: dj)
    then show ?thesis
      using sj jl Suc.prems(1) False by (simp add: up py_index_def)
  next
    case True
    let ?d = "uvdata[s + j := uvs m ! (?face ! j)]"
    have IH: "load_uvs_polygon m i (Suc j) [s + Suc j ..< s + length ?face] ?d =
     (if \<forall>v\<in>set (drop (Suc j) ?face). v < length (uvs m)
      then Inr (take (s + Suc j) ?d @ map (\<lambda>v. uvs m ! v) (drop (Suc j) ?face)
                 @ drop (s + length ?face) ?d)
      else Inl IndexError)"
      using Suc.hyps(1) [of "Suc j" ?d] Suc.hyps(2) Suc.prems jl by simp
    have t: "take (s + Suc j) ?d = take (s + j) uvdata @ [uvs m ! (?face ! j)]"
      using sj by (simp add: take_Suc_conv_app_nth)
    have d: "drop (s + length ?face) ?d = drop (s + length ?face) uvdata"
      using jl by simp
    have step: "load_uvs_polygon m i j [s + j ..< s + length ?face] uvdata =
       load_uvs_polygon m i (Suc j) [s + Suc j ..< s + length ?face] ?d"
      using sj jl Suc.prems(1) True by (simp add: up py_index_def)
    have c: "(\<forall>v\<in>set (drop j ?face). v < length (uvs m)) \<longleftrightarrow>
             (\<forall>v\<in>set (drop (Suc j) ?face). v < length (uvs m))"
      using True by (simp add: dj)
    show ?thesis
      unfolding step IH c t d by (simp add: dj)
  qed
qed

lemma load_uvs_eq:
  assumes "drop i (faces m) = fs" and "length uvdata = s + length (concat fs)"
  shows "load_uvs m i (make_polygons s fs) uvdata =
     (if \<forall>f\<in>set fs. \<forall>v\<in>set f. v < length (uvs m)
      then Inr (take s uvdata @ map (\<lambda>v. uvs m ! v) (concat fs))
      else Inl IndexError)"
  using assms
proof (induction fs arbitrary: i s uvdata)
  case Nil
  then show ?case by simp
next
  case (Cons f fs)
  from Cons.prems(1) have il: "i < length (faces m)"
    by (metis drop_all linorder_not_less list.distinct(1))
  with Cons.prems(1) have f: "faces m ! i = f" and dr: "drop (Suc i) (faces m) = fs"
    by (simp_all add: Cons_nth_drop_Suc [symmetric])
  have len: "s + length f \<le> length uvdata" using Cons.prems(2) by simp
  have pol: "load_uvs_polygon m i 0 [s ..< s + length f] uvdata =
     (if \<forall>v\<in>set f. v < length (uvs m)
      then Inr (take s uvdata @ map (\<lambda>v. uvs m ! v) f @ drop (s + length f) uvdata)
      else Inl IndexError)"
    using load_uvs_polygon_eq [of i m 0 s uvdata] il f len by simp
  show ?case
  proof (cases "\<forall>v\<in>set f. v < length (uvs m)")
    case False
    then have "load_uvs_polygon m i 0 [s ..< s + length f] uvdata = Inl IndexError"
      by (simp only: pol if_False)
    moreover have "\<not> (\<forall>f'\<in>set (f # fs). \<forall>v\<in>set f'. v < length (uvs m))"
      using False by simp
    ultimately show ?thesis
      by (simp only: make_polygons.simps load_uvs.simps loop_indices_def if_False
          mesh_polygon.simps sum.case)
  next
    case True
    let ?d = "take s uvdata @ map (\<lambda>v. uvs m ! v) f @ drop (s + length f) uvdata"
    have l2: "length ?d = (s + length f) + length (concat fs)"
      using Cons.prems(2) by simp
    have tk: "take (s + length f) ?d = take s uvdata @ map (\<lambda>v. uvs m ! v) f"
      using len by simp
    from True have p: "load_uvs_polygon m i 0 [s ..< s + length f] uvdata = Inr ?d"
      by (simp add: pol)
    have c: "(\<forall>f'\<in>set (f # fs). \<forall>v\<in>set f'. v < length (uvs m)) \<longleftrightarrow>
             (\<forall>f'\<in>set fs. \<forall>v\<in>set f'. v < length (uvs m))"
      using True by simp
    have "load_uvs m i (make_polygons s (f # fs)) uvdata =
            load_uvs m (Suc i) (make_polygons (s + length f) fs) ?d"
      by (simp add: loop_indices_def p)
    then show ?thesis
      unfolding c Cons.IH [OF dr l2] tk by simp
  qed
qed

lemma create_vertex_groups_eq:
  "create_vertex_groups tbl gs = gs @ map (\<lambda>val. \<lparr>vg_name = fst val, vg_calls = []\<rparr>) tbl"
  by (induction tbl arbitrary: gs) (auto simp: vertex_groups_new_def)

text \<open>
  Up to the weight loop, \<^verbatim>\<open>do_import\<close> is a case distinction on the input.
\<close>

lemma do_import_eq:
  "do_import tbl m arm w =
     (if \<not> mesh_loads m then Inl IndexError
      else if count_mismatch m
      then Inr (mismatch_message (name m), add_object (mesh_of tbl m) w)
      else (case weights_loop tbl m 0 (bone_assign m) (vertex_groups (mesh_of tbl m)) of
              Inl e \<Rightarrow> Inl e
            | Inr gs \<Rightarrow> Inr (imported_message (name m),
                             add_object ((mesh_of tbl m)\<lparr>vertex_groups := gs\<rparr>) w)))"
proof -
  let ?ob = "from_pydata (vertices m) (faces m) (new_object (name m))"
  have n: "load_normals (normals m) 0 (map (\<lambda>v. \<lparr>co = v, normal = (0, 0, 0)\<rparr>) (vertices m)) =
     (if length (vertices m) \<le> length (normals m)
      then Inr (map (\<lambda>(v, n). \<lparr>co = v, normal = n\<rparr>) (zip (vertices m) (normals m)))
      else Inl IndexError)"
    by (auto simp: load_normals_eq zip_map1 case_prod_unfold)
  have u: "load_uvs m 0 (make_polygons 0 (faces m))
             (replicate (length (concat (faces m))) (0, 0)) =
     (if \<forall>f\<in>set (faces m). \<forall>v\<in>set f. v < length (uvs m)
      then Inr (map (\<lambda>v. uvs m ! v) (concat (faces m)))
      else Inl IndexError)"
    using load_uvs_eq [of 0 m "faces m" "replicate (length (concat (faces m))) (0, 0)" 0]
    by simp
  show ?thesis
  proof (cases "length (vertices m) \<le> length (normals m)")
    case False
    then show ?thesis
      by (simp add: do_import_def Let_def from_pydata_def new_object_def n mesh_loads_def)
  next
    case nt: True
    show ?thesis
    proof (cases "\<forall>f\<in>set (faces m). \<forall>v\<in>set f. v < length (uvs m)")
      case False
      then have "load_uvs m 0 (make_polygons 0 (faces m))
             (replicate (length (concat (faces m))) (0, 0)) = Inl IndexError"
        by (simp only: u if_False)
      moreover have "\<not> mesh_loads m" using False by (simp add: mesh_loads_def)
      ultimately show ?thesis
        using nt
        by (simp add: do_import_def Let_def n uv_textures_new_def from_pydata_def new_object_def
            make_polygons_total)
    next
      case True
      then have "load_uvs m 0 (make_polygons 0 (faces m))
             (replicate (length (concat (faces m))) (0, 0)) =
           Inr (map (\<lambda>v. uvs m ! v) (concat (faces m)))"
        by (simp add: u)
      moreover have "mesh_loads m" using True nt by (simp add: mesh_loads_def)
      ultimately show ?thesis
        using nt
        by (simp add: do_import_def Let_def n uv_textures_new_def from_pydata_def new_object_def
            make_polygons_total create_vertex_groups_eq mesh_of_def count_mismatch_def
            split: sum.splits)
    qed
  qed
qed

subsection \<open>The weight loops\<close>

lemma find_group_eq:
  "find_group gs n k =
     (if n \<in> vg_name ` set gs then Inr (k + length (takeWhile (\<lambda>g. vg_name g \<noteq> n) gs))
      else Inl KeyError)"
  by (induction gs arbitrary: k) auto

lemma length_takeWhile_mem: "x \<in> set xs \<Longrightarrow> \<not> P x \<Longrightarrow> length (takeWhile P xs) < length xs"
  by (induction xs) auto

lemma group_of_less: "b < length tbl \<Longrightarrow> group_of tbl b < length tbl"
  unfolding group_of_def by (rule length_takeWhile_mem [of "tbl ! b"]) auto

lemma find_group_table:
  assumes "map vg_name gs = map fst tbl" and "b < length tbl"
  shows "find_group gs (fst (tbl ! b)) 0 = Inr (group_of tbl b)"
proof -
  let ?n = "fst (tbl ! b)"
  have "?n \<in> set (map fst tbl)" using assms(2) by simp
  then have mem: "?n \<in> vg_name ` set gs" using assms(1) by (metis set_map)
  have "length (takeWhile (\<lambda>g. vg_name g \<noteq> ?n) gs)
          = length (takeWhile (\<lambda>x. x \<noteq> ?n) (map vg_name gs))"
    by (simp add: takeWhile_map comp_def)
  also have "\<dots> = length (takeWhile (\<lambda>x. x \<noteq> ?n) (map fst tbl))" by (simp add: assms(1))
  also have "\<dots> = group_of tbl b" by (simp add: takeWhile_map comp_def group_of_def)
  finally show ?thesis using mem by (simp add: find_group_eq)
qed

lemma vg_add_names: "map vg_name (vg_add k idx wt ty gs) = map vg_name gs"
proof (rule nth_equalityI)
  show "length (map vg_name (vg_add k idx wt ty gs)) = length (map vg_name gs)"
    by (simp add: vg_add_def)
  show "map vg_name (vg_add k idx wt ty gs) ! n = map vg_name gs ! n"
    if "n < length (map vg_name (vg_add k idx wt ty gs))" for n
    using that by (cases "n = k") (simp_all add: vg_add_def)
qed

lemma vg_add_length: "length (vg_add k idx wt ty gs) = length gs"
  by (simp add: vg_add_def)

lemma vg_add_calls:
  "k' < length gs \<Longrightarrow>
     vg_calls (vg_add k idx wt ty gs ! k') =
       (if k' = k then vg_calls (gs ! k') @ [(idx, wt, ty)] else vg_calls (gs ! k'))"
  by (simp add: vg_add_def nth_list_update)

lemma weights_readable_Nil: "weights_readable tbl m i j []"
  by (simp add: weights_readable_def)

lemma weights_readable_Cons:
  "weights_readable tbl m i j (b # bs) \<longleftrightarrow>
     b < length tbl
     \<and> (j \<noteq> 3 \<longrightarrow> i < length (bone_weight m) \<and> j < length (bone_weight m ! i))
     \<and> weights_readable tbl m i (Suc j) bs"
proof -
  have "(\<forall>x. j \<le> x \<and> x < j + length (b # bs) \<and> x \<noteq> 3 \<longrightarrow> P x)
        \<longleftrightarrow> (j \<noteq> 3 \<longrightarrow> P j) \<and> (\<forall>x. Suc j \<le> x \<and> x < Suc j + length bs \<and> x \<noteq> 3 \<longrightarrow> P x)"
    (is "?L \<longleftrightarrow> ?R") for P
  proof
    assume l: ?L
    have "P j" if "j \<noteq> 3" using l that by simp
    moreover have "P x" if "Suc j \<le> x \<and> x < Suc j + length bs \<and> x \<noteq> 3" for x
      using l that by simp
    ultimately show ?R by blast
  next
    assume r: ?R
    have "P x" if "j \<le> x \<and> x < j + length (b # bs) \<and> x \<noteq> 3" for x
    proof (cases "x = j")
      case True
      then show ?thesis using r that by simp
    next
      case False
      then have "Suc j \<le> x \<and> x < Suc j + length bs \<and> x \<noteq> 3" using that by simp
      then show ?thesis using r by blast
    qed
    then show ?L by blast
  qed
  then show ?thesis unfolding weights_readable_def by auto
qed

text \<open>
  The loop over \<open>j\<close>: induction on the rest of the row, for any position and any
  running remainder. A lookup of a vertex group by a name of the table never fails, so
  the only exception is \<^verbatim>\<open>IndexError\<close>.
\<close>

lemma weights_vertex_eq:
  assumes "map vg_name gs = map fst tbl"
  shows "weights_vertex tbl m i j bs r gs =
     (if weights_readable tbl m i j bs
      then Inr (foldl (\<lambda>g (b, wt). vg_add (group_of tbl b) [i] wt ADD g) gs
                  (zip bs (passed_weights (bone_weight m ! i) j (length bs) r)))
      else Inl IndexError)"
  using assms
proof (induction bs arbitrary: j r gs)
  case Nil
  then show ?case by (simp add: weights_readable_Nil)
next
  case (Cons b bs)
  show ?case
  proof (cases "b < length tbl")
    case False
    then show ?thesis by (simp add: weights_readable_Cons py_index_def)
  next
    case bt: True
    have fg: "find_group gs (fst (tbl ! b)) 0 = Inr (group_of tbl b)"
      by (rule find_group_table [OF Cons.prems bt])
    have nm: "map vg_name (vg_add (group_of tbl b) [i] wt ADD gs) = map fst tbl" for wt
      by (simp add: vg_add_names Cons.prems)
    show ?thesis
    proof (cases "j = 3")
      case True
      then show ?thesis
        using bt by (simp add: weights_readable_Cons py_index_def fg Cons.IH [OF nm])
    next
      case j3: False
      show ?thesis
      proof (cases "i < length (bone_weight m) \<and> j < length (bone_weight m ! i)")
        case False
        then show ?thesis
          using bt j3 by (auto simp: weights_readable_Cons py_index_def fg)
      next
        case True
        then show ?thesis
          using bt j3 by (simp add: weights_readable_Cons py_index_def fg Cons.IH [OF nm])
      qed
    qed
  qed
qed

lemma foldl_vg_add:
  assumes "\<forall>(b, wt)\<in>set plan. group_of tbl b < length gs"
  shows "map vg_name (foldl (\<lambda>g (b, wt). vg_add (group_of tbl b) [i] wt ADD g) gs plan) = map vg_name gs
    \<and> length (foldl (\<lambda>g (b, wt). vg_add (group_of tbl b) [i] wt ADD g) gs plan) = length gs
    \<and> (\<forall>k<length gs.
          vg_calls (foldl (\<lambda>g (b, wt). vg_add (group_of tbl b) [i] wt ADD g) gs plan ! k) =
          vg_calls (gs ! k) @
            map (\<lambda>(b, wt). ([i], wt, ADD)) (filter (\<lambda>(b, wt). group_of tbl b = k) plan))"
  using assms
proof (induction plan arbitrary: gs)
  case Nil
  then show ?case by simp
next
  case (Cons p plan)
  obtain b wt where p: "p = (b, wt)" by (cases p)
  let ?gs = "vg_add (group_of tbl b) [i] wt ADD gs"
  have "\<forall>(b, wt)\<in>set plan. group_of tbl b < length ?gs"
    using Cons.prems by (simp add: vg_add_length)
  from Cons.IH [OF this] show ?case
    by (auto simp: p vg_add_names vg_add_length vg_add_calls)
qed

lemma passed_weights_length: "length (passed_weights row j n r) = n"
  by (induction n arbitrary: j r) auto

lemma passed_weights_nth:
  "d < n \<Longrightarrow> passed_weights row j n r ! d =
     (if j + d = 3 then r - sum_list (map ((!) row) [j..<3]) else row ! (j + d))"
proof (induction n arbitrary: j r d)
  case 0
  then show ?case by simp
next
  case (Suc n)
  show ?case
  proof (cases d)
    case 0
    then show ?thesis by simp
  next
    case (Suc d')
    then have d': "d' < n" using Suc.prems by simp
    have s: "j < 3 \<Longrightarrow> sum_list (map ((!) row) [j..<3]) = row ! j + sum_list (map ((!) row) [Suc j..<3])"
      by (simp add: upt_conv_Cons)
    show ?thesis
      using Suc.IH [OF d', of "Suc j"] s by (auto simp: Suc)
  qed
qed

lemma passed_weights_start:
  "passed_weights row 0 n 1 = map (weight_at row) [0..<n]"
proof (rule nth_equalityI)
  show "length (passed_weights row 0 n 1) = length (map (weight_at row) [0..<n])"
    by (simp add: passed_weights_length)
  show "passed_weights row 0 n 1 ! d = map (weight_at row) [0..<n] ! d"
    if "d < length (passed_weights row 0 n 1)" for d
  proof -
    have "[0..<3] = [0, 1, 2::nat]" by (simp add: upt_conv_Cons)
    then have "sum_list (map ((!) row) [0..<3]) = row ! 0 + row ! 1 + row ! 2" by simp
    then show ?thesis
      using that by (simp add: passed_weights_length passed_weights_nth weight_at_def)
  qed
qed

lemma assigned_groups_less:
  "weights_readable tbl m i 0 (bone_assign m ! i) \<Longrightarrow>
     \<forall>(b, wt)\<in>set (assigned m i). group_of tbl b < length tbl"
  by (auto simp: assigned_def weights_readable_def dest!: set_zip_leftD intro: group_of_less)

lemma weights_vertex_start:
  assumes "map vg_name gs = map fst tbl"
  shows "weights_vertex tbl m i 0 (bone_assign m ! i) 1 gs =
     (if weights_readable tbl m i 0 (bone_assign m ! i)
      then Inr (add_vertex tbl m gs i) else Inl IndexError)"
  by (simp add: weights_vertex_eq [OF assms] passed_weights_start assigned_def add_vertex_def)

lemma add_vertex_props:
  assumes "map vg_name gs = map fst tbl" and "weights_readable tbl m i 0 (bone_assign m ! i)"
  shows "map vg_name (add_vertex tbl m gs i) = map fst tbl"
    and "\<forall>k<length tbl. vg_calls (add_vertex tbl m gs i ! k) = vg_calls (gs ! k) @ vertex_calls tbl m k i"
proof -
  have l: "length gs = length tbl" using assms(1) by (metis length_map)
  have "\<forall>(b, wt)\<in>set (assigned m i). group_of tbl b < length gs"
    using assigned_groups_less [OF assms(2)] l by simp
  from foldl_vg_add [OF this, of i]
  show "map vg_name (add_vertex tbl m gs i) = map fst tbl"
    and "\<forall>k<length tbl. vg_calls (add_vertex tbl m gs i ! k) = vg_calls (gs ! k) @ vertex_calls tbl m k i"
    using assms(1) l by (simp_all add: add_vertex_def vertex_calls_def)
qed

text \<open>
  The loop over \<open>i\<close>, and with it the whole function.
\<close>

lemma weights_loop_eq:
  assumes "map vg_name gs = map fst tbl" and "drop i (bone_assign m) = rows"
  shows "weights_loop tbl m i rows gs =
     (if \<forall>i'. i \<le> i' \<and> i' < length (bone_assign m) \<longrightarrow> weights_readable tbl m i' 0 (bone_assign m ! i')
      then Inr (foldl (add_vertex tbl m) gs [i..<length (bone_assign m)])
      else Inl IndexError)"
  using assms
proof (induction rows arbitrary: i gs)
  case Nil
  then have "length (bone_assign m) \<le> i" by simp
  then show ?case by simp
next
  case (Cons row rows)
  from Cons.prems(2) have il: "i < length (bone_assign m)"
    by (metis drop_all linorder_not_less list.distinct(1))
  with Cons.prems(2) have row: "row = bone_assign m ! i" and dr: "drop (Suc i) (bone_assign m) = rows"
    by (simp_all add: Cons_nth_drop_Suc [symmetric])
  have up: "[i..<length (bone_assign m)] = i # [Suc i..<length (bone_assign m)]"
    using il by (simp add: upt_conv_Cons)
  have q: "(\<forall>i'. i \<le> i' \<and> i' < length (bone_assign m) \<longrightarrow> P i')
       \<longleftrightarrow> P i \<and> (\<forall>i'. Suc i \<le> i' \<and> i' < length (bone_assign m) \<longrightarrow> P i')" for P
    using il by (metis Suc_leD Suc_leI le_neq_implies_less order_refl)
  show ?case
  proof (cases "weights_readable tbl m i 0 (bone_assign m ! i)")
    case False
    then show ?thesis
      using q [of "\<lambda>i'. weights_readable tbl m i' 0 (bone_assign m ! i')"]
      by (simp add: row weights_vertex_start [OF Cons.prems(1)])
  next
    case True
    have nm: "map vg_name (add_vertex tbl m gs i) = map fst tbl"
      by (rule add_vertex_props(1) [OF Cons.prems(1) True])
    show ?thesis
      using True q [of "\<lambda>i'. weights_readable tbl m i' 0 (bone_assign m ! i')"]
      by (simp add: row weights_vertex_start [OF Cons.prems(1)] Cons.IH [OF nm dr] up)
  qed
qed

lemma foldl_add_vertex:
  assumes "map vg_name gs = map fst tbl"
    and "\<forall>i\<in>set is. weights_readable tbl m i 0 (bone_assign m ! i)"
  shows "map vg_name (foldl (add_vertex tbl m) gs is) = map fst tbl
    \<and> (\<forall>k<length tbl. vg_calls (foldl (add_vertex tbl m) gs is ! k) =
          vg_calls (gs ! k) @ concat (map (vertex_calls tbl m k) is))"
  using assms
proof (induction "is" arbitrary: gs)
  case Nil
  then show ?case by simp
next
  case (Cons i "is")
  have r: "weights_readable tbl m i 0 (bone_assign m ! i)" using Cons.prems(2) by simp
  note p = add_vertex_props [OF Cons.prems(1) r]
  have "\<forall>i\<in>set is. weights_readable tbl m i 0 (bone_assign m ! i)" using Cons.prems(2) by simp
  from Cons.IH [OF p(1) this] p(2) show ?case by simp
qed

lemma weights_loop_groups:
  "weights_loop tbl m 0 (bone_assign m) (map (\<lambda>val. \<lparr>vg_name = fst val, vg_calls = []\<rparr>) tbl) =
     (if all_readable tbl m then Inr (weighted_groups tbl m) else Inl IndexError)"
proof -
  let ?gs = "map (\<lambda>val. \<lparr>vg_name = fst val, vg_calls = []\<rparr>) tbl"
  have nm: "map vg_name ?gs = map fst tbl" by (simp add: comp_def)
  have eq: "weights_loop tbl m 0 (bone_assign m) ?gs =
     (if all_readable tbl m
      then Inr (foldl (add_vertex tbl m) ?gs [0..<length (bone_assign m)])
      else Inl IndexError)"
    using weights_loop_eq [OF nm, of 0 m "bone_assign m"] by (simp add: all_readable_def)
  have "foldl (add_vertex tbl m) ?gs [0..<length (bone_assign m)] = weighted_groups tbl m"
    if ar: "all_readable tbl m"
  proof -
    let ?f = "foldl (add_vertex tbl m) ?gs [0..<length (bone_assign m)]"
    have "\<forall>i\<in>set [0..<length (bone_assign m)]. weights_readable tbl m i 0 (bone_assign m ! i)"
      using ar by (simp add: all_readable_def)
    from foldl_add_vertex [OF nm this] have
      n: "map vg_name ?f = map fst tbl" and
      c: "\<forall>k<length tbl. vg_calls (?f ! k) =
            concat (map (vertex_calls tbl m k) [0..<length (bone_assign m)])"
      by simp_all
    have l: "length ?f = length tbl" using n by (metis length_map)
    show ?thesis
    proof (rule nth_equalityI)
      show "length ?f = length (weighted_groups tbl m)" by (simp add: l weighted_groups_def)
      show "?f ! k = weighted_groups tbl m ! k" if "k < length ?f" for k
      proof -
        have kt: "k < length tbl" using that l by simp
        have "vg_name (?f ! k) = fst (tbl ! k)"
          using n kt l by (metis nth_map)
        then show ?thesis
          using c kt by (simp add: weighted_groups_def)
      qed
    qed
  qed
  then show ?thesis using eq by simp
qed

lemma do_import_closed:
  "do_import tbl m arm w =
     (if \<not> mesh_loads m then Inl IndexError
      else if count_mismatch m
      then Inr (mismatch_message (name m), add_object (mesh_of tbl m) w)
      else if \<not> all_readable tbl m then Inl IndexError
      else Inr (imported_message (name m),
                add_object ((mesh_of tbl m)\<lparr>vertex_groups := weighted_groups tbl m\<rparr>) w))"
proof -
  have "vertex_groups (mesh_of tbl m) = map (\<lambda>val. \<lparr>vg_name = fst val, vg_calls = []\<rparr>) tbl"
    by (simp add: mesh_of_def)
  then show ?thesis
    by (simp add: do_import_eq weights_loop_groups)
qed

lemma do_import_imported:
  assumes "do_import tbl m arm w = Inr (s, w')" and "\<not> count_mismatch m"
  shows "s = imported_message (name m)"
    and "w' = add_object ((mesh_of tbl m)\<lparr>vertex_groups := weighted_groups tbl m\<rparr>) w"
    and "all_readable tbl m" and "mesh_loads m"
  using assms by (auto simp: do_import_closed split: if_splits)

lemma do_import_mismatched:
  assumes "do_import tbl m arm w = Inr (s, w')" and "count_mismatch m"
  shows "s = mismatch_message (name m)" and "w' = add_object (mesh_of tbl m) w"
    and "mesh_loads m"
  using assms by (auto simp: do_import_closed split: if_splits)

lemma do_import_returns:
  "do_import tbl m arm w =
     (if group_returns tbl m
      then Inr (group_message m, add_object (group_object tbl m) w)
      else Inl IndexError)"
  by (simp add: do_import_closed group_returns_def group_object_def group_message_def)

lemma weighted_groups_length: "length (weighted_groups tbl m) = length tbl"
  by (simp add: weighted_groups_def)

lemma weighted_groups_names: "map vg_name (weighted_groups tbl m) = map fst tbl"
  by (rule nth_equalityI) (simp_all add: weighted_groups_def)

lemma weighted_groups_calls:
  "k < length tbl \<Longrightarrow>
     vg_calls (weighted_groups tbl m ! k) =
       concat (map (vertex_calls tbl m k) [0..<length (bone_assign m)])"
  by (simp add: weighted_groups_def)

lemma assigned_length: "length (assigned m i) = length (bone_assign m ! i)"
  by (simp add: assigned_def)

lemma assigned_nth:
  "j < length (bone_assign m ! i) \<Longrightarrow>
     assigned m i ! j = (bone_assign m ! i ! j, weight_at (bone_weight m ! i) j)"
  by (simp add: assigned_def)

lemma assigned_map:
  "assigned m i =
     map (\<lambda>j. (bone_assign m ! i ! j, weight_at (bone_weight m ! i) j))
       [0..<length (bone_assign m ! i)]"
  by (rule nth_equalityI) (simp_all add: assigned_def)

lemma vertex_calls_idx: "c \<in> set (vertex_calls tbl m k i) \<Longrightarrow> fst c = [i]"
  by (auto simp: vertex_calls_def)

lemma vertex_calls_index:
  "vertex_calls tbl m k i =
     map (\<lambda>j. ([i], weight_at (bone_weight m ! i) j, ADD))
       (filter (\<lambda>j. group_of tbl (bone_assign m ! i ! j) = k) [0..<length (bone_assign m ! i)])"
  by (simp add: vertex_calls_def assigned_map filter_map comp_def)

lemma vertex_calls_weights:
  "map (\<lambda>c. fst (snd c)) (vertex_calls tbl m k i) =
     map snd (filter (\<lambda>(b, wt). group_of tbl b = k) (assigned m i))"
  by (simp add: vertex_calls_def comp_def case_prod_unfold)

lemma find_group_weighted:
  "b < length tbl \<Longrightarrow>
     find_group (weighted_groups tbl m) (fst (tbl ! b)) 0 = Inr (group_of tbl b)"
  by (rule find_group_table [OF weighted_groups_names])

lemma concat_single:
  assumes "i < n"
  shows "concat (map (\<lambda>i'. if i' = i then xs else []) [0..<n]) = xs"
proof -
  have a: "[0..<n] = [0..<i] @ [i] @ [Suc i..<n]"
    using assms by (metis append_Cons append_Nil le_add2 le_add_same_cancel2 less_imp_add_positive upt_add_eq_append upt_rec)
  have b: "concat (map (\<lambda>i'. if i' = i then xs else []) [0..<i]) = []" by simp
  have c: "concat (map (\<lambda>i'. if i' = i then xs else []) [Suc i..<n]) = []" by simp
  show ?thesis
    unfolding a map_append concat_append b c by simp
qed

lemma filter_vertex_calls:
  assumes "i < n"
  shows "filter (\<lambda>c. fst c = [i]) (concat (map (vertex_calls tbl m k) [0..<n])) = vertex_calls tbl m k i"
proof -
  have "filter (\<lambda>c. fst c = [i]) (vertex_calls tbl m k i') = (if i' = i then vertex_calls tbl m k i else [])" for i'
    by (auto simp: vertex_calls_def filter_map comp_def case_prod_unfold)
  then have "filter (\<lambda>c. fst c = [i]) (concat (map (vertex_calls tbl m k) [0..<n]))
      = concat (map (\<lambda>i'. if i' = i then vertex_calls tbl m k i else []) [0..<n])"
    by (simp add: filter_concat comp_def)
  then show ?thesis by (simp add: concat_single [OF assms])
qed

lemma filter_vertex_calls_mem:
  assumes "i < n"
  shows "filter (\<lambda>c. i \<in> set (fst c)) (concat (map (vertex_calls tbl m k) [0..<n]))
           = vertex_calls tbl m k i"
proof -
  have "filter (\<lambda>c. i \<in> set (fst c)) cs = filter (\<lambda>c. fst c = [i]) cs"
    if "\<forall>c\<in>set cs. \<exists>i'. fst c = [i']" for cs :: "(nat list \<times> real \<times> assign_mode) list"
    using that by (induction cs) auto
  moreover have "\<forall>c\<in>set (concat (map (vertex_calls tbl m k) [0..<n])). \<exists>i'. fst c = [i']"
    by (auto dest: vertex_calls_idx)
  ultimately show ?thesis by (simp add: filter_vertex_calls [OF assms])
qed

lemma mesh_of_no_calls: "\<forall>g\<in>set (vertex_groups (mesh_of tbl m)). vg_calls g = []"
  by (auto simp: mesh_of_def)

lemma add_object_inj: "add_object ob w = add_object ob' w \<Longrightarrow> ob = ob'"
proof -
  assume "add_object ob w = add_object ob' w"
  then have "objects (add_object ob w) = objects (add_object ob' w)" by simp
  then show ?thesis by (simp add: add_object_def)
qed

subsection \<open>The example groups\<close>

lemmas eval_defs =
  do_import_def Let_def from_pydata_def new_object_def uv_textures_new_def loop_indices_def
  py_index_def vertex_groups_new_def vg_add_def upt_conv_Cons numeral_3_eq_3 numeral_2_eq_2

lemma ex_do_import_body:
  "do_import ex_table ex_model arm w = Inr (imported_message ''body'', add_object ex_body_object w)"
  by (simp add: eval_defs ex_table_def ex_model_def ex_body_object_def)

lemma ex_do_import_hair:
  "do_import ex_table ex_mismatch arm w = Inr (mismatch_message ''hair'', add_object ex_hair_object w)"
  by (simp add: eval_defs ex_table_def ex_mismatch_def ex_hair_object_def)

lemma ex_do_import_shadow:
  "do_import ex_table ex_shadow arm w = Inl IndexError"
  by (simp add: eval_defs ex_table_def ex_shadow_def)

subsection \<open>The implicit fourth weight\<close>

lemma sum_by_group:
  fixes plan :: "(nat \<times> real) list" and g :: "nat \<Rightarrow> nat"
  assumes "\<forall>(b, wt)\<in>set plan. g b < n"
  shows "(\<Sum>k<n. sum_list (map snd (filter (\<lambda>(b, wt). g b = k) plan))) = sum_list (map snd plan)"
  using assms
proof (induction plan)
  case Nil
  then show ?case by simp
next
  case (Cons p plan)
  obtain b wt where p: "p = (b, wt)" by (cases p)
  have gb: "g b < n" using Cons.prems by (simp add: p)
  have "(\<Sum>k<n. sum_list (map snd (filter (\<lambda>(b, wt). g b = k) (p # plan))))
        = (\<Sum>k<n. (if k = g b then wt else 0) + sum_list (map snd (filter (\<lambda>(b, wt). g b = k) plan)))"
    by (intro sum.cong) (auto simp: p)
  also have "\<dots> = (\<Sum>k<n. if k = g b then wt else 0)
                  + (\<Sum>k<n. sum_list (map snd (filter (\<lambda>(b, wt). g b = k) plan)))"
    by (simp add: sum.distrib)
  also have "(\<Sum>k<n. if k = g b then wt else 0) = wt"
    using gb by simp
  finally show ?case using Cons by (simp add: p)
qed

lemma assigned_sum:
  assumes "3 < length (bone_assign m ! i)"
  shows "sum_list (map snd (assigned m i))
           = 1 + sum_list (map ((!) (bone_weight m ! i)) [4..<length (bone_assign m ! i)])"
proof -
  let ?n = "length (bone_assign m ! i)"
  have sp: "[0..<?n] = [0, 1, 2, 3] @ [4..<?n]"
    using upt_add_eq_append [of 0 4 "?n - 4"] assms by (simp add: upt_conv_Cons)
  have "map snd (assigned m i) = map (weight_at (bone_weight m ! i)) [0..<?n]"
    by (simp add: assigned_map comp_def)
  also have "\<dots> = map (weight_at (bone_weight m ! i)) [0, 1, 2, 3]
                    @ map (weight_at (bone_weight m ! i)) [4..<?n]"
    by (subst sp) simp
  also have "map (weight_at (bone_weight m ! i)) [4..<?n] = map ((!) (bone_weight m ! i)) [4..<?n]"
    by (simp add: weight_at_def)
  finally show ?thesis by (simp add: weight_at_def)
qed

lemma vertex_total:
  assumes "all_readable tbl m" and "i < length (bone_assign m)"
  shows "(\<Sum>k<length tbl. sum_list (map (\<lambda>c. fst (snd c))
            (filter (\<lambda>c. fst c = [i]) (vg_calls (weighted_groups tbl m ! k)))))
         = sum_list (map snd (assigned m i))"
proof -
  have rd: "weights_readable tbl m i 0 (bone_assign m ! i)"
    using assms by (simp add: all_readable_def)
  have "(\<Sum>k<length tbl. sum_list (map (\<lambda>c. fst (snd c))
            (filter (\<lambda>c. fst c = [i]) (vg_calls (weighted_groups tbl m ! k)))))
      = (\<Sum>k<length tbl. sum_list (map snd (filter (\<lambda>(b, wt). group_of tbl b = k) (assigned m i))))"
    by (intro sum.cong refl)
       (simp add: weighted_groups_calls filter_vertex_calls [OF assms(2)] vertex_calls_weights)
  also have "\<dots> = sum_list (map snd (assigned m i))"
    by (rule sum_by_group) (rule assigned_groups_less [OF rd])
  finally show ?thesis .
qed

text \<open>
  C1 as stated fails on vertex 1 of the example group, which records the two bone
  indices \<open>[1, 1]\<close> with the weights \<open>[1/4, 1/2]\<close> and no fourth index. The group is
  imported; the calls made for this vertex, over all vertex groups, are the two explicit
  ones, no further weight is added for it, and the weights added for it total \<open>3/4\<close>.
\<close>

theorem no_fourth_index_counterexample:
  "do_import ex_table ex_model ex_armature empty_world =
     Inr (imported_message ''body'', add_object ex_body_object empty_world)
   \<and> bone_assign ex_model ! 1 = [1, 1]
   \<and> bone_weight ex_model ! 1 = [1 / 4, 1 / 2]
   \<and> map (\<lambda>g. filter (\<lambda>c. fst c = [1]) (vg_calls g)) (vertex_groups ex_body_object)
       = [[], [([1], 1 / 4, ADD), ([1], 1 / 2, ADD)], [], []]
   \<and> sum_list (map (\<lambda>c. fst (snd c))
        (concat (map (\<lambda>g. filter (\<lambda>c. fst c = [1]) (vg_calls g)) (vertex_groups ex_body_object))))
       = 3 / 4
   \<and> (3 / 4 :: real) \<noteq> 1"
  using ex_do_import_body [of ex_armature empty_world]
  by (simp add: ex_model_def ex_body_object_def)

text \<open>
  C1 (amended). Let a group be imported, and let vertex \<open>i\<close> record a fourth bone index.
  Then \<^verbatim>\<open>do_import\<close> adds, to the vertex group found under the name of that fourth bone
  index, the weight 1 minus the sum of the first three entries of the vertex's
  \<^verbatim>\<open>bone_weight\<close> row (which exist). All weights added for the vertex, over all vertex
  groups, sum to 1 plus the explicit weights at positions after the fourth: the three
  explicit weights and the implicit one sum to 1, and the total is 1 when the vertex
  records exactly four indices. The weights are real numbers here, so the sums are
  exact.
\<close>

theorem implicit_fourth_weight:
  assumes "do_import bone_parent_table m armature w = Inr (s, w')"
    and "\<not> count_mismatch m"
    and "i < length (bone_assign m)"
    and "3 < length (bone_assign m ! i)"
  shows "\<exists>ob k. w' = add_object ob w
           \<and> find_group (vertex_groups ob)
                (fst (bone_parent_table ! (bone_assign m ! i ! 3))) 0 = Inr k
           \<and> ([i], 1 - (bone_weight m ! i ! 0 + bone_weight m ! i ! 1 + bone_weight m ! i ! 2), ADD)
                \<in> set (vg_calls (vertex_groups ob ! k))
           \<and> 3 \<le> length (bone_weight m ! i)
           \<and> (\<Sum>k<length bone_parent_table.
                 sum_list (map (\<lambda>c. fst (snd c))
                   (filter (\<lambda>c. fst c = [i]) (vg_calls (vertex_groups ob ! k)))))
               = 1 + sum_list (map ((!) (bone_weight m ! i)) [4..<length (bone_assign m ! i)])"
proof -
  let ?tbl = bone_parent_table
  let ?ob = "(mesh_of ?tbl m)\<lparr>vertex_groups := weighted_groups ?tbl m\<rparr>"
  let ?b = "bone_assign m ! i ! 3"
  let ?k = "group_of ?tbl ?b"
  let ?row = "bone_weight m ! i"
  note imp = do_import_imported [OF assms(1,2)]
  from imp(3) assms(3) have rd: "weights_readable ?tbl m i 0 (bone_assign m ! i)"
    by (simp add: all_readable_def)
  have bl: "?b < length ?tbl"
    using rd assms(4) by (simp add: weights_readable_def)
  have "2 < length ?row"
    using rd assms(4) by (simp add: weights_readable_def)
  then have len: "3 \<le> length ?row" by simp
  have fg: "find_group (vertex_groups ?ob) (fst (?tbl ! ?b)) 0 = Inr ?k"
    using find_group_table [OF weighted_groups_names bl] by simp
  have kl: "?k < length ?tbl" by (rule group_of_less [OF bl])
  have "(?b, weight_at ?row 3) \<in> set (assigned m i)"
    using assigned_nth [OF assms(4)] assms(4) by (metis assigned_length nth_mem)
  then have "([i], weight_at ?row 3, ADD) \<in> set (vertex_calls ?tbl m ?k i)"
    by (force simp: vertex_calls_def)
  then have "([i], weight_at ?row 3, ADD) \<in> set (vg_calls (weighted_groups ?tbl m ! ?k))"
    using assms(3) by (auto simp: weighted_groups_calls [OF kl])
  then have mem: "([i], 1 - (?row ! 0 + ?row ! 1 + ?row ! 2), ADD)
                \<in> set (vg_calls (vertex_groups ?ob ! ?k))"
    by (simp add: weight_at_def)
  have tot: "(\<Sum>k<length ?tbl.
                 sum_list (map (\<lambda>c. fst (snd c))
                   (filter (\<lambda>c. fst c = [i]) (vg_calls (vertex_groups ?ob ! k)))))
             = 1 + sum_list (map ((!) ?row) [4..<length (bone_assign m ! i)])"
    using vertex_total [OF imp(3) assms(3)] assigned_sum [OF assms(4)] by simp
  show ?thesis
    apply (rule exI [of _ ?ob])
    apply (rule exI [of _ ?k])
    using imp(2) fg mem len tot by simp
qed

text \<open>
  Vertex 0 of the example group: indices \<open>[0, 1, 2, 3]\<close>, weights \<open>[1/2, 1/4, 1/8]\<close>. The
  implicit weight \<open>1/8\<close> goes to the group of the fourth index, and the four weights
  added for the vertex sum to 1.
\<close>

theorem implicit_fourth_weight_witness:
  "do_import ex_table ex_model ex_armature empty_world =
     Inr (imported_message ''body'', add_object ex_body_object empty_world)
   \<and> \<not> count_mismatch ex_model
   \<and> (0::nat) < length (bone_assign ex_model)
   \<and> bone_assign ex_model ! 0 = [0, 1, 2, 3]
   \<and> bone_weight ex_model ! 0 = [1 / 2, 1 / 4, 1 / 8]
   \<and> find_group (vertex_groups ex_body_object) ''hand'' 0 = Inr 3
   \<and> map (\<lambda>g. filter (\<lambda>c. fst c = [0]) (vg_calls g)) (vertex_groups ex_body_object)
       = [[([0], 1 / 2, ADD)], [([0], 1 / 4, ADD)], [([0], 1 / 8, ADD)], [([0], 1 / 8, ADD)]]
   \<and> (1 / 2 + 1 / 4 + 1 / 8 + 1 / 8 :: real) = 1
   \<and> (\<exists>ob k. add_object ex_body_object empty_world = add_object ob empty_world
         \<and> find_group (vertex_groups ob) ''hand'' 0 = Inr k
         \<and> ([0], 1 / 8, ADD) \<in> set (vg_calls (vertex_groups ob ! k)))"
proof -
  have h2: "\<not> count_mismatch ex_model" by (simp add: count_mismatch_def ex_model_def)
  have h3: "(0::nat) < length (bone_assign ex_model)" by (simp add: ex_model_def)
  have h4: "3 < length (bone_assign ex_model ! 0)" by (simp add: ex_model_def)
  have a: "bone_assign ex_model ! 0 = [0, 1, 2, 3]"
    and b: "bone_weight ex_model ! 0 = [1 / 2, 1 / 4, 1 / 8]"
    by (simp_all add: ex_model_def)
  have n: "fst (ex_table ! 3) = ''hand''" by (simp add: ex_table_def)
  have f: "find_group (vertex_groups ex_body_object) ''hand'' 0 = Inr 3"
    by (simp add: ex_body_object_def)
  have g: "map (\<lambda>g. filter (\<lambda>c. fst c = [0]) (vg_calls g)) (vertex_groups ex_body_object)
       = [[([0], 1 / 2, ADD)], [([0], 1 / 4, ADD)], [([0], 1 / 8, ADD)], [([0], 1 / 8, ADD)]]"
    by (simp add: ex_body_object_def)
  have t: "(1 / 2 + 1 / 4 + 1 / 8 + 1 / 8 :: real) = 1" by simp
  from implicit_fourth_weight [OF ex_do_import_body h2 h3 h4]
  obtain ob k where o: "add_object ex_body_object empty_world = add_object ob empty_world"
    and fk: "find_group (vertex_groups ob) (fst (ex_table ! (bone_assign ex_model ! 0 ! 3))) 0 = Inr k"
    and c: "([0], 1 - (bone_weight ex_model ! 0 ! 0 + bone_weight ex_model ! 0 ! 1
                        + bone_weight ex_model ! 0 ! 2), ADD)
              \<in> set (vg_calls (vertex_groups ob ! k))"
    by blast
  have "fst (ex_table ! (bone_assign ex_model ! 0 ! 3)) = ''hand''"
    by (simp add: ex_model_def ex_table_def)
  moreover have "1 - (bone_weight ex_model ! 0 ! 0 + bone_weight ex_model ! 0 ! 1
                        + bone_weight ex_model ! 0 ! 2) = 1 / 8"
    by (simp add: ex_model_def)
  ultimately have "\<exists>ob k. add_object ex_body_object empty_world = add_object ob empty_world
         \<and> find_group (vertex_groups ob) ''hand'' 0 = Inr k
         \<and> ([0], 1 / 8, ADD) \<in> set (vg_calls (vertex_groups ob ! k))"
    using o fk c by metis
  then show ?thesis using ex_do_import_body h2 h3 a b f g t by blast
qed

subsection \<open>Accumulation\<close>

lemma foldl_apply_call_filter:
  "foldl (apply_call v) acc cs = foldl (apply_call v) acc (filter (\<lambda>c. v \<in> set (fst c)) cs)"
  by (induction cs arbitrary: acc) auto

lemma foldl_apply_call_add:
  "foldl (apply_call v) acc (map (\<lambda>wt. ([v], wt, ADD)) ws) =
     (if ws = [] then acc else Some ((case acc of None \<Rightarrow> 0 | Some x \<Rightarrow> x) + sum_list ws))"
  by (induction ws arbitrary: acc) (auto split: option.splits)

lemma vg_weight_weighted:
  assumes "i < length (bone_assign m)" and "k < length tbl"
  shows "vg_weight (weighted_groups tbl m ! k) i =
     (if filter (\<lambda>j. group_of tbl (bone_assign m ! i ! j) = k) [0..<length (bone_assign m ! i)] = []
      then None
      else Some (sum_list (map (weight_at (bone_weight m ! i))
             (filter (\<lambda>j. group_of tbl (bone_assign m ! i ! j) = k)
                [0..<length (bone_assign m ! i)]))))"
proof -
  let ?js = "filter (\<lambda>j. group_of tbl (bone_assign m ! i ! j) = k) [0..<length (bone_assign m ! i)]"
  have "vg_weight (weighted_groups tbl m ! k) i =
          foldl (apply_call i) None (vertex_calls tbl m k i)"
    unfolding vg_weight_def weighted_groups_calls [OF assms(2)]
    by (subst foldl_apply_call_filter) (simp add: filter_vertex_calls_mem [OF assms(1)])
  also have "vertex_calls tbl m k i =
          map (\<lambda>wt. ([i], wt, ADD)) (map (weight_at (bone_weight m ! i)) ?js)"
    by (simp add: vertex_calls_index comp_def)
  finally have "vg_weight (weighted_groups tbl m ! k) i =
     foldl (apply_call i) None
       (map (\<lambda>wt. ([i], wt, ADD)) (map (weight_at (bone_weight m ! i)) ?js))" .
  then show ?thesis unfolding foldl_apply_call_add by simp
qed

text \<open>
  C5. Let a group be imported. Every call recorded in a vertex group has the mode
  \<^verbatim>\<open>ADD\<close>, and the weight a vertex ends with in the vertex group at position \<open>k\<close> is the
  sum of the weights of all positions of its \<^verbatim>\<open>bone_assign\<close> row whose bone index
  resolves to that group (no weight when there is no such position): a bone group
  listed twice receives both contributions.
\<close>

theorem weights_accumulate:
  assumes "do_import bone_parent_table m armature w = Inr (s, w')"
    and "\<not> count_mismatch m"
    and "i < length (bone_assign m)"
    and "k < length bone_parent_table"
  shows "\<exists>ob. w' = add_object ob w
           \<and> (\<forall>j<length (bone_assign m ! i).
                 find_group (vertex_groups ob)
                   (fst (bone_parent_table ! (bone_assign m ! i ! j))) 0 =
                 Inr (group_of bone_parent_table (bone_assign m ! i ! j)))
           \<and> (\<forall>c\<in>set (vg_calls (vertex_groups ob ! k)). snd (snd c) = ADD)
           \<and> vg_weight (vertex_groups ob ! k) i =
               (if filter (\<lambda>j. group_of bone_parent_table (bone_assign m ! i ! j) = k)
                     [0..<length (bone_assign m ! i)] = []
                then None
                else Some (sum_list (map (weight_at (bone_weight m ! i))
                       (filter (\<lambda>j. group_of bone_parent_table (bone_assign m ! i ! j) = k)
                          [0..<length (bone_assign m ! i)]))))"
proof -
  let ?tbl = bone_parent_table
  let ?ob = "(mesh_of ?tbl m)\<lparr>vertex_groups := weighted_groups ?tbl m\<rparr>"
  note imp = do_import_imported [OF assms(1,2)]
  from imp(3) assms(3) have rd: "weights_readable ?tbl m i 0 (bone_assign m ! i)"
    by (simp add: all_readable_def)
  have 1: "\<forall>j<length (bone_assign m ! i).
             find_group (vertex_groups ?ob) (fst (?tbl ! (bone_assign m ! i ! j))) 0 =
             Inr (group_of ?tbl (bone_assign m ! i ! j))"
    using rd by (simp add: weights_readable_def find_group_weighted)
  have 2: "\<forall>c\<in>set (vg_calls (vertex_groups ?ob ! k)). snd (snd c) = ADD"
    by (auto simp: weighted_groups_calls [OF assms(4)] vertex_calls_def)
  have 3: "vg_weight (vertex_groups ?ob ! k) i =
               (if filter (\<lambda>j. group_of ?tbl (bone_assign m ! i ! j) = k)
                     [0..<length (bone_assign m ! i)] = []
                then None
                else Some (sum_list (map (weight_at (bone_weight m ! i))
                       (filter (\<lambda>j. group_of ?tbl (bone_assign m ! i ! j) = k)
                          [0..<length (bone_assign m ! i)]))))"
    using vg_weight_weighted [OF assms(3,4)] by simp
  show ?thesis
    apply (rule exI [of _ ?ob])
    using imp(2) 1 2 3 by blast
qed

text \<open>
  Vertex 1 of the example group names bone 1 twice, with the weights 1/4 and 1/2.
\<close>

theorem weights_accumulate_witness:
  "do_import ex_table ex_model ex_armature empty_world =
     Inr (imported_message ''body'', add_object ex_body_object empty_world)
   \<and> \<not> count_mismatch ex_model
   \<and> (1::nat) < length (bone_assign ex_model)
   \<and> (1::nat) < length ex_table
   \<and> bone_assign ex_model ! 1 = [1, 1]
   \<and> bone_weight ex_model ! 1 = [1 / 4, 1 / 2]
   \<and> vg_weight (vertex_groups ex_body_object ! 1) 1 = Some (3 / 4)
   \<and> (\<exists>ob. add_object ex_body_object empty_world = add_object ob empty_world
         \<and> vg_weight (vertex_groups ob ! 1) 1 = Some (1 / 4 + 1 / 2))"
proof -
  have h2: "\<not> count_mismatch ex_model" by (simp add: count_mismatch_def ex_model_def)
  have h3: "(1::nat) < length (bone_assign ex_model)" by (simp add: ex_model_def)
  have h4: "(1::nat) < length ex_table" by (simp add: ex_table_def)
  have a: "bone_assign ex_model ! 1 = [1, 1]"
    and b: "bone_weight ex_model ! 1 = [1 / 4, 1 / 2]"
    by (simp_all add: ex_model_def)
  have g: "group_of ex_table 1 = 1" by (simp add: group_of_def ex_table_def)
  have v: "vg_weight (vertex_groups ex_body_object ! 1) 1 = Some (3 / 4)"
    by (simp add: ex_body_object_def vg_weight_def)
  from weights_accumulate [OF ex_do_import_body h2 h3 h4]
  obtain ob where o: "add_object ex_body_object empty_world = add_object ob empty_world"
    and w: "vg_weight (vertex_groups ob ! 1) 1 =
               (if filter (\<lambda>j. group_of ex_table (bone_assign ex_model ! 1 ! j) = 1)
                     [0..<length (bone_assign ex_model ! 1)] = []
                then None
                else Some (sum_list (map (weight_at (bone_weight ex_model ! 1))
                       (filter (\<lambda>j. group_of ex_table (bone_assign ex_model ! 1 ! j) = 1)
                          [0..<length (bone_assign ex_model ! 1)]))))"
    by blast
  have "(if filter (\<lambda>j. group_of ex_table (bone_assign ex_model ! 1 ! j) = 1)
                     [0..<length (bone_assign ex_model ! 1)] = []
                then None
                else Some (sum_list (map (weight_at (bone_weight ex_model ! 1))
                       (filter (\<lambda>j. group_of ex_table (bone_assign ex_model ! 1 ! j) = 1)
                          [0..<length (bone_assign ex_model ! 1)])))) = Some (1 / 4 + 1 / 2)"
    by (simp add: ex_model_def ex_table_def group_of_def weight_at_def upt_conv_Cons)
  with o w have "\<exists>ob. add_object ex_body_object empty_world = add_object ob empty_world
         \<and> vg_weight (vertex_groups ob ! 1) 1 = Some (1 / 4 + 1 / 2)"
    by metis
  then show ?thesis using ex_do_import_body h2 h3 h4 a b v by blast
qed

subsection \<open>Where the remainder is used\<close>

lemma weight_at_take:
  assumes "take 3 row' = take 3 row" and "j \<le> 3"
  shows "weight_at row' j = weight_at row j"
proof -
  have "row' ! x = row ! x" if "x < 3" for x
    using assms(1) that by (metis nth_take)
  then show ?thesis using assms(2) by (auto simp: weight_at_def)
qed

lemma length_take_3:
  assumes "take 3 row' = take 3 row" and "x < 3"
  shows "x < length row' \<longleftrightarrow> x < length (row :: 'a list)"
proof -
  have "length (take 3 row') = length (take 3 row)" using assms(1) by simp
  then show ?thesis using assms(2) by auto
qed

lemma do_import_bone_weight_tail:
  assumes "take 3 row' = take 3 (bone_weight m ! i)" and "length (bone_assign m ! i) \<le> 4"
    and "i < length (bone_weight m)"
  shows "do_import tbl (m\<lparr>bone_weight := (bone_weight m)[i := row']\<rparr>) arm w = do_import tbl m arm w"
proof -
  let ?m' = "m\<lparr>bone_weight := (bone_weight m)[i := row']\<rparr>"
  have ml: "mesh_loads ?m' = mesh_loads m" by (simp add: mesh_loads_def)
  have cm: "count_mismatch ?m' = count_mismatch m" by (simp add: count_mismatch_def)
  have mo: "mesh_of tbl ?m' = mesh_of tbl m" by (simp add: mesh_of_def)
  have rd: "weights_readable tbl ?m' i' 0 (bone_assign m ! i') =
            weights_readable tbl m i' 0 (bone_assign m ! i')" for i'
  proof (cases "i' = i")
    case False
    then show ?thesis by (simp add: weights_readable_def)
  next
    case True
    have "x < length row' \<longleftrightarrow> x < length (bone_weight m ! i)"
      if "x < length (bone_assign m ! i)" "x \<noteq> 3" for x
      using that assms(2) length_take_3 [OF assms(1), of x] by simp
    then show ?thesis
      using assms(3) by (auto simp: weights_readable_def True)
  qed
  have ar: "all_readable tbl ?m' = all_readable tbl m"
    by (simp add: all_readable_def) (use rd in simp)
  have as: "assigned ?m' i' = assigned m i'" for i'
  proof (cases "i' = i")
    case False
    then show ?thesis by (simp add: assigned_def)
  next
    case True
    have "weight_at row' j = weight_at (bone_weight m ! i) j" if "j < length (bone_assign m ! i)" for j
      using weight_at_take [OF assms(1), of j] that assms(2) by simp
    then have eq: "map (weight_at row') [0..<length (bone_assign m ! i)] =
               map (weight_at (bone_weight m ! i)) [0..<length (bone_assign m ! i)]"
      by (intro map_cong) auto
    show ?thesis
      using assms(3) by (simp add: assigned_def True eq)
  qed
  have vc: "vertex_calls tbl ?m' k = vertex_calls tbl m k" for k
    by (rule ext) (simp add: vertex_calls_def as)
  have wg: "weighted_groups tbl ?m' = weighted_groups tbl m"
    by (simp add: weighted_groups_def vc)
  show ?thesis
    by (simp add: do_import_closed ml cm mo ar wg)
qed

text \<open>
  C10. Let a group be imported. The calls made for vertex \<open>i\<close> are, position by
  position of its \<^verbatim>\<open>bone_assign\<close> row, the entry of its \<^verbatim>\<open>bone_weight\<close> row at every
  position other than 3 and the remainder at position 3. So a vertex with at most
  three bone indices receives explicit weights only, and for a vertex with at most four
  indices replacing its \<^verbatim>\<open>bone_weight\<close> row by any row with the same first three entries
  changes nothing: no entry from the fourth on is read.
\<close>

theorem remainder_only_at_fourth_index:
  assumes "do_import bone_parent_table m armature w = Inr (s, w')"
    and "\<not> count_mismatch m"
    and "i < length (bone_assign m)"
  shows "\<exists>ob. w' = add_object ob w
           \<and> (\<forall>j<length (bone_assign m ! i).
                 find_group (vertex_groups ob)
                   (fst (bone_parent_table ! (bone_assign m ! i ! j))) 0 =
                 Inr (group_of bone_parent_table (bone_assign m ! i ! j)))
           \<and> (\<forall>k<length bone_parent_table.
                 filter (\<lambda>c. fst c = [i]) (vg_calls (vertex_groups ob ! k)) =
                 map (\<lambda>j. ([i], weight_at (bone_weight m ! i) j, ADD))
                   (filter (\<lambda>j. group_of bone_parent_table (bone_assign m ! i ! j) = k)
                      [0..<length (bone_assign m ! i)]))
           \<and> (length (bone_assign m ! i) \<le> 3 \<longrightarrow>
                (\<forall>k<length bone_parent_table.
                   filter (\<lambda>c. fst c = [i]) (vg_calls (vertex_groups ob ! k)) =
                   map (\<lambda>j. ([i], bone_weight m ! i ! j, ADD))
                     (filter (\<lambda>j. group_of bone_parent_table (bone_assign m ! i ! j) = k)
                        [0..<length (bone_assign m ! i)])))
           \<and> (length (bone_assign m ! i) \<le> 4 \<longrightarrow>
                (\<forall>row'. take 3 row' = take 3 (bone_weight m ! i) \<longrightarrow>
                   do_import bone_parent_table (m\<lparr>bone_weight := (bone_weight m)[i := row']\<rparr>)
                     armature w
                   = do_import bone_parent_table m armature w))"
proof -
  let ?tbl = bone_parent_table
  let ?ob = "(mesh_of ?tbl m)\<lparr>vertex_groups := weighted_groups ?tbl m\<rparr>"
  let ?bs = "bone_assign m ! i"
  note imp = do_import_imported [OF assms(1,2)]
  from imp(3) assms(3) have rd: "weights_readable ?tbl m i 0 ?bs"
    by (simp add: all_readable_def)
  have il: "i < length (bone_weight m)"
    using assms(2,3) by (simp add: count_mismatch_def)
  have 1: "\<forall>j<length ?bs.
             find_group (vertex_groups ?ob) (fst (?tbl ! (?bs ! j))) 0 = Inr (group_of ?tbl (?bs ! j))"
    using rd by (simp add: weights_readable_def find_group_weighted)
  have 2: "filter (\<lambda>c. fst c = [i]) (vg_calls (vertex_groups ?ob ! k)) =
             map (\<lambda>j. ([i], weight_at (bone_weight m ! i) j, ADD))
               (filter (\<lambda>j. group_of ?tbl (?bs ! j) = k) [0..<length ?bs])"
    if "k < length ?tbl" for k
    using that by (simp add: weighted_groups_calls filter_vertex_calls [OF assms(3)] vertex_calls_index)
  have 3: "filter (\<lambda>c. fst c = [i]) (vg_calls (vertex_groups ?ob ! k)) =
             map (\<lambda>j. ([i], bone_weight m ! i ! j, ADD))
               (filter (\<lambda>j. group_of ?tbl (?bs ! j) = k) [0..<length ?bs])"
    if "k < length ?tbl" and "length ?bs \<le> 3" for k
  proof -
    have "weight_at (bone_weight m ! i) j = bone_weight m ! i ! j"
      if "j \<in> set (filter (\<lambda>j. group_of ?tbl (?bs ! j) = k) [0..<length ?bs])" for j
      using that \<open>length ?bs \<le> 3\<close> by (auto simp: weight_at_def)
    then show ?thesis unfolding 2 [OF \<open>k < length ?tbl\<close>] by (intro map_cong) auto
  qed
  have 4: "do_import ?tbl (m\<lparr>bone_weight := (bone_weight m)[i := row']\<rparr>) armature w
             = do_import ?tbl m armature w"
    if "length ?bs \<le> 4" and "take 3 row' = take 3 (bone_weight m ! i)" for row'
    by (rule do_import_bone_weight_tail [OF that(2,1) il])
  show ?thesis
    apply (rule exI [of _ ?ob])
    using imp(2) 1 2 3 4 by blast
qed

text \<open>
  Vertex 2 of the example group has one bone index; vertex 0 has four indices and a
  \<^verbatim>\<open>bone_weight\<close> row of three entries.
\<close>

theorem remainder_only_at_fourth_index_witness:
  "do_import ex_table ex_model ex_armature empty_world =
     Inr (imported_message ''body'', add_object ex_body_object empty_world)
   \<and> \<not> count_mismatch ex_model
   \<and> (2::nat) < length (bone_assign ex_model)
   \<and> bone_assign ex_model = [[0, 1, 2, 3], [1, 1], [2]]
   \<and> bone_weight ex_model = [[1 / 2, 1 / 4, 1 / 8], [1 / 4, 1 / 2], [1]]
   \<and> map (\<lambda>g. filter (\<lambda>c. fst c = [2]) (vg_calls g)) (vertex_groups ex_body_object)
        = [[], [], [([2], 1, ADD)], []]
   \<and> (\<exists>ob. add_object ex_body_object empty_world = add_object ob empty_world
        \<and> filter (\<lambda>c. fst c = [2]) (vg_calls (vertex_groups ob ! 2)) = [([2], bone_weight ex_model ! 2 ! 0, ADD)])
   \<and> do_import ex_table (ex_model\<lparr>bone_weight := (bone_weight ex_model)[0 := [1 / 2, 1 / 4, 1 / 8, 5]]\<rparr>)
        ex_armature empty_world
      = do_import ex_table ex_model ex_armature empty_world"
proof -
  have h2: "\<not> count_mismatch ex_model" by (simp add: count_mismatch_def ex_model_def)
  have h3: "(2::nat) < length (bone_assign ex_model)" by (simp add: ex_model_def)
  have h0: "(0::nat) < length (bone_assign ex_model)" by (simp add: ex_model_def)
  have a: "bone_assign ex_model = [[0, 1, 2, 3], [1, 1], [2]]"
    and b: "bone_weight ex_model = [[1 / 2, 1 / 4, 1 / 8], [1 / 4, 1 / 2], [1]]"
    by (simp_all add: ex_model_def)
  have f: "map (\<lambda>g. filter (\<lambda>c. fst c = [2]) (vg_calls g)) (vertex_groups ex_body_object)
        = [[], [], [([2], 1, ADD)], []]"
    by (simp add: ex_body_object_def)
  from remainder_only_at_fourth_index [OF ex_do_import_body h2 h3]
  obtain ob where o: "add_object ex_body_object empty_world = add_object ob empty_world"
    and e: "length (bone_assign ex_model ! 2) \<le> 3 \<longrightarrow>
                (\<forall>k<length ex_table.
                   filter (\<lambda>c. fst c = [2]) (vg_calls (vertex_groups ob ! k)) =
                   map (\<lambda>j. ([2], bone_weight ex_model ! 2 ! j, ADD))
                     (filter (\<lambda>j. group_of ex_table (bone_assign ex_model ! 2 ! j) = k)
                        [0..<length (bone_assign ex_model ! 2)]))"
    by blast
  have l: "length (bone_assign ex_model ! 2) \<le> 3" and t: "(2::nat) < length ex_table"
    by (simp_all add: ex_model_def ex_table_def)
  have "filter (\<lambda>j. group_of ex_table (bone_assign ex_model ! 2 ! j) = 2)
                        [0..<length (bone_assign ex_model ! 2)] = [0]"
    by (simp add: ex_model_def ex_table_def group_of_def)
  with e l t have 1: "filter (\<lambda>c. fst c = [2]) (vg_calls (vertex_groups ob ! 2)) =
        [([2], bone_weight ex_model ! 2 ! 0, ADD)]"
    by simp
  from remainder_only_at_fourth_index [OF ex_do_import_body h2 h0]
  have r: "length (bone_assign ex_model ! 0) \<le> 4 \<longrightarrow>
                (\<forall>row'. take 3 row' = take 3 (bone_weight ex_model ! 0) \<longrightarrow>
                   do_import ex_table (ex_model\<lparr>bone_weight := (bone_weight ex_model)[0 := row']\<rparr>)
                     ex_armature empty_world
                   = do_import ex_table ex_model ex_armature empty_world)"
    by blast
  have "length (bone_assign ex_model ! 0) \<le> 4"
    and "take 3 [1 / 2, 1 / 4, 1 / 8, 5] = take 3 (bone_weight ex_model ! 0)"
    by (simp_all add: ex_model_def)
  with r have 2: "do_import ex_table
        (ex_model\<lparr>bone_weight := (bone_weight ex_model)[0 := [1 / 2, 1 / 4, 1 / 8, 5]]\<rparr>)
        ex_armature empty_world
      = do_import ex_table ex_model ex_armature empty_world"
    by blast
  show ?thesis
    using ex_do_import_body [of ex_armature empty_world] h2 h3 a b f o 1 2 by blast
qed

subsection \<open>The count check\<close>

text \<open>
  C9. When \<^verbatim>\<open>do_import\<close> returns for a group whose counts do not match, it returns
  the error string, and the world holds one more mesh object: named after the group,
  linked, with the group's vertices, normals, faces and UV coordinates and with one
  vertex group per entry of the bone table, none of which has received a weight.
\<close>

theorem mismatch_leaves_mesh_object:
  assumes "do_import bone_parent_table m armature w = Inr (s, w')" and "count_mismatch m"
  shows "s = mismatch_message (name m)
         \<and> (\<exists>ob. w' = add_object ob w \<and> objects w' = objects w @ [ob]
              \<and> ob_name ob = name m \<and> linked ob
              \<and> map co (mesh_vertices ob) = vertices m
              \<and> map normal (mesh_vertices ob) = take (length (vertices m)) (normals m)
              \<and> map poly_vertices (mesh_polygons ob) = faces m
              \<and> uv_layers ob = [(''UVMap'', map (\<lambda>v. uvs m ! v) (concat (faces m)))]
              \<and> map vg_name (vertex_groups ob) = map fst bone_parent_table
              \<and> (\<forall>g\<in>set (vertex_groups ob). vg_calls g = []))"
proof -
  let ?ob = "mesh_of bone_parent_table m"
  note mm = do_import_mismatched [OF assms]
  have l: "length (vertices m) \<le> length (normals m)" using mm(3) by (simp add: mesh_loads_def)
  have co: "map co (mesh_vertices ?ob) = vertices m"
  proof -
    have "map co (mesh_vertices ?ob) = map fst (zip (vertices m) (normals m))"
      by (simp add: mesh_of_def case_prod_unfold comp_def)
    also have "\<dots> = vertices m" using l by (simp add: map_fst_zip_take min_def)
    finally show ?thesis .
  qed
  have no: "map normal (mesh_vertices ?ob) = take (length (vertices m)) (normals m)"
  proof -
    have "map normal (mesh_vertices ?ob) = map snd (zip (vertices m) (normals m))"
      by (simp add: mesh_of_def case_prod_unfold comp_def)
    then show ?thesis using l by (simp add: map_snd_zip_take min_def)
  qed
  have rest: "ob_name ?ob = name m \<and> linked ?ob
      \<and> map poly_vertices (mesh_polygons ?ob) = faces m
      \<and> uv_layers ?ob = [(''UVMap'', map (\<lambda>v. uvs m ! v) (concat (faces m)))]
      \<and> map vg_name (vertex_groups ?ob) = map fst bone_parent_table"
    by (simp add: mesh_of_def make_polygons_faces comp_def)
  have "objects w' = objects w @ [?ob]" by (simp add: mm(2) add_object_def)
  then show ?thesis
    using mm(1,2) co no rest mesh_of_no_calls [of bone_parent_table m] by blast
qed

text \<open>
  The mismatched example group.
\<close>

theorem mismatch_leaves_mesh_object_witness:
  "do_import ex_table ex_mismatch ex_armature empty_world =
       Inr (mismatch_message ''hair'', add_object ex_hair_object empty_world)
   \<and> count_mismatch ex_mismatch
   \<and> objects (add_object ex_hair_object empty_world) = [ex_hair_object]
   \<and> (\<exists>ob. add_object ex_hair_object empty_world = add_object ob empty_world
        \<and> ob_name ob = ''hair'' \<and> linked ob
        \<and> map co (mesh_vertices ob) = [(0, 0, 1), (1, 0, 1), (0, 1, 1)]
        \<and> map normal (mesh_vertices ob) = [(0, 0, 1), (0, 0, 1), (0, 0, 1)]
        \<and> map poly_vertices (mesh_polygons ob) = [[0, 1, 2]]
        \<and> uv_layers ob = [(''UVMap'', [(0, 0), (1, 0), (0, 1)])]
        \<and> map vg_name (vertex_groups ob) = [''root'', ''spine'', ''tip'', ''hand''])"
proof -
  have h1: "do_import ex_table ex_mismatch ex_armature empty_world =
       Inr (mismatch_message ''hair'', add_object ex_hair_object empty_world)"
    by (rule ex_do_import_hair)
  have h2: "count_mismatch ex_mismatch" by (simp add: count_mismatch_def ex_mismatch_def)
  have "\<exists>ob. add_object ex_hair_object empty_world = add_object ob empty_world
              \<and> objects (add_object ex_hair_object empty_world) = objects empty_world @ [ob]
              \<and> ob_name ob = name ex_mismatch \<and> linked ob
              \<and> map co (mesh_vertices ob) = vertices ex_mismatch
              \<and> map normal (mesh_vertices ob)
                  = take (length (vertices ex_mismatch)) (normals ex_mismatch)
              \<and> map poly_vertices (mesh_polygons ob) = faces ex_mismatch
              \<and> uv_layers ob
                  = [(''UVMap'', map (\<lambda>v. uvs ex_mismatch ! v) (concat (faces ex_mismatch)))]
              \<and> map vg_name (vertex_groups ob) = map fst ex_table
              \<and> (\<forall>g\<in>set (vertex_groups ob). vg_calls g = [])"
    by (rule conjunct2 [OF mismatch_leaves_mesh_object [OF h1 h2]])
  then obtain ob where o: "add_object ex_hair_object empty_world = add_object ob empty_world"
    and p: "ob_name ob = name ex_mismatch" "linked ob"
      "map co (mesh_vertices ob) = vertices ex_mismatch"
      "map normal (mesh_vertices ob) = take (length (vertices ex_mismatch)) (normals ex_mismatch)"
      "map poly_vertices (mesh_polygons ob) = faces ex_mismatch"
      "uv_layers ob = [(''UVMap'', map (\<lambda>v. uvs ex_mismatch ! v) (concat (faces ex_mismatch)))]"
      "map vg_name (vertex_groups ob) = map fst ex_table"
    by (elim exE conjE) (rule that, assumption+)
  have h3: "objects (add_object ex_hair_object empty_world) = [ex_hair_object]"
    by (simp add: add_object_def empty_world_def)
  have "\<exists>ob. add_object ex_hair_object empty_world = add_object ob empty_world
        \<and> ob_name ob = ''hair'' \<and> linked ob
        \<and> map co (mesh_vertices ob) = [(0, 0, 1), (1, 0, 1), (0, 1, 1)]
        \<and> map normal (mesh_vertices ob) = [(0, 0, 1), (0, 0, 1), (0, 0, 1)]
        \<and> map poly_vertices (mesh_polygons ob) = [[0, 1, 2]]
        \<and> uv_layers ob = [(''UVMap'', [(0, 0), (1, 0), (0, 1)])]
        \<and> map vg_name (vertex_groups ob) = [''root'', ''spine'', ''tip'', ''hand'']"
    by (rule exI [of _ ob]) (simp add: o p ex_mismatch_def ex_table_def)
  with h1 h2 h3 show ?thesis by (intro conjI)
qed

section \<open>execute\<close>

text \<open>
  C4. When \<^verbatim>\<open>load_header\<close> reports an unsupported header, \<^verbatim>\<open>execute\<close> returns
  \<^verbatim>\<open>False\<close> after printing the unsupported version: \<^verbatim>\<open>load_data\<close>,
  \<^verbatim>\<open>groups_from_gmdc\<close> and \<^verbatim>\<open>build_bones\<close> are not called, and no armature or mesh
  object is created. \<^verbatim>\<open>parse_data\<close> has the same guard.
\<close>

theorem execute_unsupported:
  assumes "load_header gmdc_data = False"
  shows "execute tbl gmdc_data w =
     Inr (RetFalse, w\<lparr>decoder_calls := decoder_calls w @ [From_file_data, Load_header],
                      console := console w @ [unsupported_message (file_type gmdc_data)]\<rparr>)
   \<and> parse_data gmdc_data w =
     (None, w\<lparr>decoder_calls := decoder_calls w @ [From_file_data, Load_header],
              console := console w @ [unsupported_message (file_type gmdc_data)]\<rparr>)"
  using assms by (simp add: execute_def parse_data_def Let_def decoder_call_def py_print_def)

text \<open>A file with the unsupported tag \<open>0x1234\<close>.\<close>

theorem execute_unsupported_witness:
  "load_header unsupported_file = False
   \<and> execute [(''bone0'', ())] unsupported_file empty_world =
       Inr (RetFalse, \<lparr>decoder_calls = [From_file_data, Load_header],
                       console = [''Unsupported GMDC version 0x1234''],
                       armatures = [], objects = []\<rparr>)"
proof -
  have h: "load_header unsupported_file = False" by (simp add: unsupported_file_def)
  have m: "unsupported_message (file_type unsupported_file) = ''Unsupported GMDC version 0x1234''"
    by (simp add: unsupported_file_def unsupported_message_def hex_def hex_digits.simps hex_digit_def)
  from execute_unsupported [OF h, of "[(''bone0'', ())]" empty_world]
  show ?thesis using h by (simp add: m empty_world_def)
qed

text \<open>
  C8. When the header is supported and \<^verbatim>\<open>groups_from_gmdc\<close> returns \<^verbatim>\<open>False\<close>,
  \<^verbatim>\<open>execute\<close> is \<^verbatim>\<open>import_skeleton\<close> followed by \<^verbatim>\<open>{'FINISHED'}\<close>: no mesh object
  is created. With a bone table whose parents refer to the bone itself or to earlier
  bones, it returns \<^verbatim>\<open>{'FINISHED'}\<close> with the armature added to the world.
\<close>

theorem execute_no_geometry:
  assumes "load_header gmdc_data" and "groups_from_gmdc gmdc_data = None"
  shows "execute tbl gmdc_data w =
           (case import_skeleton gmdc_data
                   (w\<lparr>decoder_calls := decoder_calls w @
                         [From_file_data, Load_header, Load_data, Groups_from_gmdc]\<rparr>) of
              Inl e \<Rightarrow> Inl e
            | Inr (armature, w') \<Rightarrow> Inr (FINISHED, w'))
         \<and> ((\<forall>k<length (build_bones gmdc_data). \<forall>p.
                parent (build_bones gmdc_data ! k) = Some p \<longrightarrow> p \<le> k)
             \<longrightarrow> (\<exists>armature. execute tbl gmdc_data w =
                    Inr (FINISHED, w\<lparr>decoder_calls := decoder_calls w @
                            [From_file_data, Load_header, Load_data, Groups_from_gmdc, Build_bones],
                          armatures := armatures w @ [armature]\<rparr>)
                  \<and> length (edit_bones armature) = length (build_bones gmdc_data)))"
proof -
  let ?w = "w\<lparr>decoder_calls := decoder_calls w @
                         [From_file_data, Load_header, Load_data, Groups_from_gmdc]\<rparr>"
  have 1: "execute tbl gmdc_data w =
           (case import_skeleton gmdc_data ?w of
              Inl e \<Rightarrow> Inl e
            | Inr (armature, w') \<Rightarrow> Inr (FINISHED, w'))"
    using assms by (simp add: execute_def Let_def decoder_call_def split: sum.splits)
  have 2: "\<exists>armature. execute tbl gmdc_data w =
                    Inr (FINISHED, w\<lparr>decoder_calls := decoder_calls w @
                            [From_file_data, Load_header, Load_data, Groups_from_gmdc, Build_bones],
                          armatures := armatures w @ [armature]\<rparr>)
                  \<and> length (edit_bones armature) = length (build_bones gmdc_data)"
    if wf: "\<forall>k<length (build_bones gmdc_data). \<forall>p.
                parent (build_bones gmdc_data ! k) = Some p \<longrightarrow> p \<le> k"
  proof -
    have "\<exists>res. create_bones (build_bones gmdc_data) [] = Inr res"
      by (rule create_bones_total) (use wf in auto)
    then obtain bones where cb: "create_bones (build_bones gmdc_data) [] = Inr bones" ..
    then obtain ob w' where isk: "import_skeleton gmdc_data ?w = Inr (ob, w')"
      by (simp add: import_skeleton_def Let_def object_add_armature_def)
    from import_skeleton_Inr [OF isk] have
      w': "w' = ?w\<lparr>decoder_calls := decoder_calls ?w @ [Build_bones], armatures := armatures ?w @ [ob]\<rparr>"
      by blast
    from import_skeleton_bones [OF isk] have "length (edit_bones ob) = length (build_bones gmdc_data)"
      by auto
    then show ?thesis using 1 isk w' by (intro exI [of _ ob]) simp
  qed
  from 1 2 show ?thesis by blast
qed

text \<open>The example file has no geometry.\<close>

theorem execute_no_geometry_witness:
  "load_header ex_file \<and> groups_from_gmdc ex_file = None
   \<and> map parent (build_bones ex_file) = [None, Some 0, Some 1]
   \<and> execute [(''bone0'', ())] ex_file empty_world =
       Inr (FINISHED, \<lparr>decoder_calls = [From_file_data, Load_header, Load_data, Groups_from_gmdc,
                                        Build_bones],
                       console = [], armatures = [ex_armature], objects = []\<rparr>)"
proof -
  have h: "load_header ex_file" and g: "groups_from_gmdc ex_file = None"
    by (simp_all add: ex_file_def)
  have wf: "\<forall>k<length (build_bones ex_file). \<forall>p. parent (build_bones ex_file ! k) = Some p \<longrightarrow> p \<le> k"
    by (simp add: ex_file_def ex_bones_def less_Suc_eq numeral_3_eq_3)
  have isk: "import_skeleton ex_file
              (empty_world\<lparr>decoder_calls := decoder_calls empty_world @
                         [From_file_data, Load_header, Load_data, Groups_from_gmdc]\<rparr>)
            = Inr (ex_armature, \<lparr>decoder_calls = [From_file_data, Load_header, Load_data,
                      Groups_from_gmdc, Build_bones],
                       console = [], armatures = [ex_armature], objects = []\<rparr>)"
    using ex_import_skeleton
    by (auto simp: import_skeleton_def Let_def empty_world_def decoder_call_def split: sum.splits)
  have mp: "map parent (build_bones ex_file) = [None, Some 0, Some 1]"
    by (simp add: ex_file_def ex_bones_def)
  from execute_no_geometry [OF h g, of "[(''bone0'', ())]" empty_world]
  show ?thesis using h g wf mp by (simp add: isk)
qed

subsection \<open>The loop over the groups\<close>

lemma import_models_closed:
  "import_models tbl ms arm w =
     (if \<forall>m\<in>set ms. group_returns tbl m
      then Inr (w\<lparr>objects := objects w @ map (group_object tbl) ms,
                  console := console w @ map group_message ms\<rparr>)
      else Inl IndexError)"
proof (induction ms arbitrary: w)
  case Nil
  then show ?case by simp
next
  case (Cons m ms)
  show ?case
  proof (cases "group_returns tbl m")
    case False
    then show ?thesis by (simp add: do_import_returns)
  next
    case True
    then show ?thesis
      by (simp add: do_import_returns Cons.IH add_object_def py_print_def)
  qed
qed

lemma import_skeleton_cong:
  "build_bones d' = build_bones d \<Longrightarrow> import_skeleton d' w = import_skeleton d w"
  by (simp add: import_skeleton_def)

lemma ex_import_skeleton_world:
  "import_skeleton (ex_file\<lparr>groups_from_gmdc := g\<rparr>) w =
     Inr (ex_armature, w\<lparr>decoder_calls := decoder_calls w @ [Build_bones],
                          armatures := armatures w @ [ex_armature]\<rparr>)"
proof -
  have "create_bones (build_bones ex_file) [] = Inr (map (\<lambda>b. b\<lparr>head := mirror_z (head b), tail := mirror_z (tail b)\<rparr>) ex_edit_bones)"
    by (simp add: ex_file_def ex_bones_def ex_edit_bones_def create_bone_def edit_bones_new_def
      quat_rotate_def py_index_def vadd_def vscale_def zero_length_offset_def epsilon_def
      mirror_z_def Let_def)
  then show ?thesis
    by (simp add: import_skeleton_def Let_def object_add_armature_def decoder_call_def
        transform_resize_def transform_apply_scale_def ex_armature_def ex_edit_bones_def
        mirror_z_def vscale_def)
qed

lemma ex_execute_body_only:
  "execute ex_table (ex_file\<lparr>groups_from_gmdc := Some [ex_model]\<rparr>) empty_world =
     Inr (FINISHED, \<lparr>decoder_calls = [From_file_data, Load_header, Load_data, Groups_from_gmdc,
                                      Build_bones],
                     console = [imported_message ''body''], armatures = [ex_armature],
                     objects = [ex_body_object]\<rparr>)"
proof -
  have "load_header (ex_file\<lparr>groups_from_gmdc := Some [ex_model]\<rparr>)" by (simp add: ex_file_def)
  then show ?thesis
    by (simp add: execute_def Let_def ex_import_skeleton_world ex_do_import_body
        decoder_call_def empty_world_def add_object_def py_print_def)
qed

text \<open>
  C3 (amended). Let the mesh data of a group load (its normals cover its vertices and
  every face index has a UV entry) and let its counts not match. Then \<^verbatim>\<open>do_import\<close>
  returns the error string that names the group, in any world, and no vertex group of
  the object it leaves has received a weight. In \<^verbatim>\<open>execute\<close> the outcome for a file that
  holds the group is the outcome for the file without it, with the group's object and
  its error line put in at the group's position: the other groups are imported as they
  would be alone, and an exception is raised only if one of them raises it.
\<close>

theorem mismatch_reported_per_group:
  assumes "mesh_loads m" and "count_mismatch m"
    and "load_header gmdc_data" and "groups_from_gmdc gmdc_data = Some (pre @ m # post)"
  shows "\<exists>ob. (\<forall>armature w0. do_import bone_parent_table m armature w0 =
                  Inr (mismatch_message (name m), add_object ob w0))
           \<and> (\<forall>g\<in>set (vertex_groups ob). vg_calls g = [])
           \<and> execute bone_parent_table gmdc_data w =
               (case execute bone_parent_table
                       (gmdc_data\<lparr>groups_from_gmdc := Some (pre @ post)\<rparr>) w of
                  Inl e \<Rightarrow> Inl e
                | Inr (r, wg) \<Rightarrow>
                    Inr (r, wg\<lparr>objects :=
                                 take (length (objects w) + length pre) (objects wg) @ [ob]
                                 @ drop (length (objects w) + length pre) (objects wg),
                               console :=
                                 take (length (console w) + length pre) (console wg)
                                 @ [mismatch_message (name m)]
                                 @ drop (length (console w) + length pre) (console wg)\<rparr>))"
proof -
  let ?tbl = bone_parent_table
  let ?ob = "mesh_of ?tbl m"
  let ?d' = "gmdc_data\<lparr>groups_from_gmdc := Some (pre @ post)\<rparr>"
  let ?w0 = "decoder_call Groups_from_gmdc (decoder_call Load_data
               (decoder_call Load_header (decoder_call From_file_data w)))"
  have ret: "group_returns ?tbl m" using assms(1,2) by (simp add: group_returns_def)
  have go: "group_object ?tbl m = ?ob" and gm: "group_message m = mismatch_message (name m)"
    using assms(2) by (simp_all add: group_object_def group_message_def)
  have 1: "\<forall>armature w0. do_import ?tbl m armature w0 =
                  Inr (mismatch_message (name m), add_object ?ob w0)"
    using ret go gm by (simp add: do_import_returns)
  have sk: "import_skeleton ?d' ?w0 = import_skeleton gmdc_data ?w0"
    by (rule import_skeleton_cong) simp
  have e1: "execute ?tbl gmdc_data w =
      (case import_skeleton gmdc_data ?w0 of
         Inl e \<Rightarrow> Inl e
       | Inr (armature, w1) \<Rightarrow>
           (case import_models ?tbl (pre @ m # post) armature w1 of
              Inl e \<Rightarrow> Inl e
            | Inr w2 \<Rightarrow> Inr (FINISHED, w2)))"
    using assms(3,4) by (simp add: execute_def Let_def split: sum.splits)
  have e2: "execute ?tbl ?d' w =
      (case import_skeleton gmdc_data ?w0 of
         Inl e \<Rightarrow> Inl e
       | Inr (armature, w1) \<Rightarrow>
           (case import_models ?tbl (pre @ post) armature w1 of
              Inl e \<Rightarrow> Inl e
            | Inr w2 \<Rightarrow> Inr (FINISHED, w2)))"
    using assms(3) by (simp add: execute_def Let_def sk split: sum.splits)
  have 3: "execute ?tbl gmdc_data w =
               (case execute ?tbl ?d' w of
                  Inl e \<Rightarrow> Inl e
                | Inr (r, wg) \<Rightarrow>
                    Inr (r, wg\<lparr>objects :=
                                 take (length (objects w) + length pre) (objects wg) @ [?ob]
                                 @ drop (length (objects w) + length pre) (objects wg),
                               console :=
                                 take (length (console w) + length pre) (console wg)
                                 @ [mismatch_message (name m)]
                                 @ drop (length (console w) + length pre) (console wg)\<rparr>))"
  proof (cases "import_skeleton gmdc_data ?w0")
    case (Inl e)
    then show ?thesis by (simp add: e1 e2)
  next
    case (Inr p)
    obtain armature w1 where p: "p = (armature, w1)" by (cases p)
    from import_skeleton_Inr [OF Inr [unfolded p]]
    have o: "objects w1 = objects w" and c: "console w1 = console w"
      by (auto simp: decoder_call_def)
    show ?thesis
    proof (cases "\<forall>m'\<in>set (pre @ post). group_returns ?tbl m'")
      case False
      then have "\<not> (\<forall>m'\<in>set (pre @ m # post). group_returns ?tbl m')" by auto
      then have a: "import_models ?tbl (pre @ m # post) armature w1 = Inl IndexError"
        unfolding import_models_closed by (rule if_not_P)
      have b: "import_models ?tbl (pre @ post) armature w1 = Inl IndexError"
        unfolding import_models_closed using False by (rule if_not_P)
      show ?thesis
        by (simp add: e1 e2 Inr p a b)
    next
      case True
      then have t': "\<forall>m'\<in>set (pre @ m # post). group_returns ?tbl m'" using ret by auto
      have a: "import_models ?tbl (pre @ m # post) armature w1 =
          Inr (w1\<lparr>objects := objects w1 @ map (group_object ?tbl) (pre @ m # post),
                  console := console w1 @ map group_message (pre @ m # post)\<rparr>)"
        unfolding import_models_closed using t' by (rule if_P)
      have b: "import_models ?tbl (pre @ post) armature w1 =
          Inr (w1\<lparr>objects := objects w1 @ map (group_object ?tbl) (pre @ post),
                  console := console w1 @ map group_message (pre @ post)\<rparr>)"
        unfolding import_models_closed using True by (rule if_P)
      show ?thesis
        by (simp add: e1 e2 Inr p a b o c go gm)
    qed
  qed
  show ?thesis
    apply (rule exI [of _ ?ob])
    using 1 mesh_of_no_calls [of ?tbl m] 3 by blast
qed

text \<open>
  A file with the mismatched group followed by the valid one.
\<close>

theorem mismatch_reported_per_group_witness:
  "mesh_loads ex_mismatch \<and> count_mismatch ex_mismatch
   \<and> load_header (ex_file\<lparr>groups_from_gmdc := Some ([] @ ex_mismatch # [ex_model])\<rparr>)
   \<and> do_import ex_table ex_mismatch ex_armature empty_world =
       Inr (mismatch_message ''hair'', add_object ex_hair_object empty_world)
   \<and> map vg_calls (vertex_groups ex_hair_object) = [[], [], [], []]
   \<and> execute ex_table (ex_file\<lparr>groups_from_gmdc := Some ([] @ ex_mismatch # [ex_model])\<rparr>)
        empty_world =
       Inr (FINISHED, \<lparr>decoder_calls = [From_file_data, Load_header, Load_data, Groups_from_gmdc,
                                        Build_bones],
                       console = [mismatch_message ''hair'', imported_message ''body''],
                       armatures = [ex_armature],
                       objects = [ex_hair_object, ex_body_object]\<rparr>)"
proof -
  let ?d = "ex_file\<lparr>groups_from_gmdc := Some ([] @ ex_mismatch # [ex_model])\<rparr>"
  have h1: "mesh_loads ex_mismatch" by (simp add: mesh_loads_def ex_mismatch_def)
  have h2: "count_mismatch ex_mismatch" by (simp add: count_mismatch_def ex_mismatch_def)
  have h3: "load_header ?d" by (simp add: ex_file_def)
  have h4: "groups_from_gmdc ?d = Some ([] @ ex_mismatch # [ex_model])" by simp
  have nm: "name ex_mismatch = ''hair''" by (simp add: ex_mismatch_def)
  have d': "?d\<lparr>groups_from_gmdc := Some ([] @ [ex_model])\<rparr> =
            ex_file\<lparr>groups_from_gmdc := Some [ex_model]\<rparr>" by simp
  from mismatch_reported_per_group [OF h1 h2 h3 h4, of ex_table empty_world]
  obtain ob where
    di: "\<forall>armature w0. do_import ex_table ex_mismatch armature w0 =
                  Inr (mismatch_message (name ex_mismatch), add_object ob w0)"
    and ex: "execute ex_table ?d empty_world =
               (case execute ex_table (?d\<lparr>groups_from_gmdc := Some ([] @ [ex_model])\<rparr>) empty_world of
                  Inl e \<Rightarrow> Inl e
                | Inr (r, wg) \<Rightarrow>
                    Inr (r, wg\<lparr>objects :=
                                 take (length (objects empty_world) + length ([] :: b_model list))
                                   (objects wg) @ [ob]
                                 @ drop (length (objects empty_world) + length ([] :: b_model list))
                                     (objects wg),
                               console :=
                                 take (length (console empty_world) + length ([] :: b_model list))
                                   (console wg)
                                 @ [mismatch_message (name ex_mismatch)]
                                 @ drop (length (console empty_world) + length ([] :: b_model list))
                                     (console wg)\<rparr>))"
    by blast
  from di have "add_object ob empty_world = add_object ex_hair_object empty_world"
    using ex_do_import_hair [of ex_armature empty_world] by simp
  then have ob: "ob = ex_hair_object" by (rule add_object_inj)
  have e: "execute ex_table ?d empty_world =
       Inr (FINISHED, \<lparr>decoder_calls = [From_file_data, Load_header, Load_data, Groups_from_gmdc,
                                        Build_bones],
                       console = [mismatch_message ''hair'', imported_message ''body''],
                       armatures = [ex_armature],
                       objects = [ex_hair_object, ex_body_object]\<rparr>)"
    unfolding ex d' ex_execute_body_only by (simp add: ob nm empty_world_def)
  have c: "map vg_calls (vertex_groups ex_hair_object) = [[], [], [], []]"
    by (simp add: ex_hair_object_def)
  show ?thesis using h1 h2 h3 ex_do_import_hair [of ex_armature empty_world] c e by blast
qed

text \<open>
  C3 as stated fails for a group without normals: its vertex count (3) differs from
  its \<^verbatim>\<open>bone_assign\<close> count (0), and \<^verbatim>\<open>do_import\<close> raises \<^verbatim>\<open>IndexError\<close> at line 142
  before the count check is reached; \<^verbatim>\<open>execute\<close> raises it too, and the valid group
  that follows is not imported.
\<close>

theorem mismatch_after_missing_normals_counterexample:
  "count_mismatch ex_shadow
   \<and> do_import ex_table ex_shadow ex_armature empty_world = Inl IndexError
   \<and> execute ex_table (ex_file\<lparr>groups_from_gmdc := Some [ex_shadow, ex_model]\<rparr>) empty_world
       = Inl IndexError"
proof -
  have "load_header (ex_file\<lparr>groups_from_gmdc := Some [ex_shadow, ex_model]\<rparr>)"
    by (simp add: ex_file_def)
  then have "execute ex_table (ex_file\<lparr>groups_from_gmdc := Some [ex_shadow, ex_model]\<rparr>) empty_world
       = Inl IndexError"
    by (simp add: execute_def Let_def ex_import_skeleton_world ex_do_import_shadow)
  moreover have "count_mismatch ex_shadow" by (simp add: count_mismatch_def ex_shadow_def)
  ultimately show ?thesis using ex_do_import_shadow by simp
qed

end
